theory Spec2Isabelle
  imports Main "HOL-Library.Word"
begin

section \<open>Runtime lifecycle and callback scopes of \<open>src/node.cc\<close>\<close>

text \<open>
  The development embeds the lifecycle code of \<open>src/node.cc\<close> and
  \<open>src/node_internals.h\<close>: the callback scope used by \<open>InternalMakeCallback\<close>,
  the public \<open>MakeCallback\<close> overloads, \<open>EmitBeforeExit\<close>, \<open>EmitExit\<close>,
  \<open>ExecuteBootstrapper\<close>, \<open>LoadEnvironment\<close>, \<open>Start(event_loop, ...)\<close> with
  \<open>Start(isolate, ...)\<close>, and \<open>ThreadPoolWork\<close>.

  The script engine (V8), the event loop (libuv) and the parts of \<open>Environment\<close> that live
  in other files are parameters: a record \<open>engine\<close> of functions on the environment.
  Every call of such a function goes through a wrapper that appends an event to the
  environment's \<open>trace\<close>, so that the order in which \<open>node.cc\<close> calls its collaborators can
  be stated.  The trace is not program state: whatever a collaborator does to it is
  discarded by the wrapper.
\<close>

subsection \<open>Values of the script engine\<close>

text \<open>
  \<open>Local<Value>\<close> handles.  Numbers are restricted to integer-valued ones; \<open>Function f\<close> is
  a function by its identity (a script function, or a native one by the name of its C++
  implementation); what calling it does is given by the engine.  An empty
  \<open>Local\<close> or \<open>MaybeLocal\<close> is \<open>None\<close>.
\<close>

datatype obj = ProcessObject | GlobalObject | Obj nat

datatype fn = Script nat | Native string

datatype val =
    Undefined
  | Null
  | Bool bool
  | Num int
  | Str string
  | Function fn
  | Object obj

type_synonym async_id = int

text \<open>\<open>struct async_context { double async_id; double trigger_async_id; }\<close>; the ids are
  integer-valued counters.\<close>

record async_context =
  async_id :: async_id
  trigger_async_id :: async_id

text \<open>The ways the process is brought down from inside the modelled code.\<close>

datatype fatal =
    CheckFailed string
  | ToLocalCheckedEmpty
  | FromJustNothing
  | AsyncStackCorrupted async_id async_id
  | NullDereference
  | OutsideContract string

datatype event =
    AsyncCallbackScopeEnter
  | AsyncCallbackScopeExit
  | PushAsyncIds async_id async_id
  | PopAsyncId async_id
  | ClearAsyncIdStack
  | CompileAndCallEv string bool
  | FunctionCall fn "obj option" "val list"
  | TickCallbackEv bool
  | SetProperty obj string val
  | SetupBootstrapObjectEv obj
  | EnvironmentStart
  | StartInspectorEv
  | UvRun
  | DrainVMTasksEv
  | CancelVMTasksEv
  | LoopAlive bool
  | BeforeExitCallbacks
  | EmitBeforeExitEv
  | EmitExitEv
  | SetTraceSyncIo bool
  | WaitForInspectorDisconnectEv
  | SetCanCallIntoJs bool
  | StopSubWorkerContexts
  | UvTtyResetMode
  | RunCleanupEv
  | RunAtExitEv

subsection \<open>The environment\<close>

text \<open>
  The fields of \<open>Environment\<close> that \<open>node.cc\<close> reads or writes, the properties of the
  script objects, and the event loop reduced to its referenced work (see
  \<open>uv_loop_alive\<close> below).
\<close>

record env =
  async_id_stack :: "(async_id \<times> async_id) list"
  makecallback_depth :: int
  can_call_into_js :: bool
  trace_sync_io :: bool
  domain_callback :: "fn option"
  inspector_enabled :: bool
  inspector_listening :: bool
  break_node_first_line :: bool
  is_main_thread :: bool
  heap :: "obj \<Rightarrow> string \<Rightarrow> val option"
  next_obj :: nat
  request_waiting :: int
  referenced_work :: nat
  trace :: "event list"

text \<open>The collaborators of \<open>node.cc\<close> whose code is outside the embedded files.\<close>

record engine =
  ext_Call :: "fn \<Rightarrow> obj option \<Rightarrow> val list \<Rightarrow> env \<Rightarrow> val option \<times> env"
  ext_CompileAndCall :: "string \<Rightarrow> string list \<Rightarrow> val list \<Rightarrow> env \<Rightarrow> val option \<times> env"
  ext_TickCallback :: "env \<Rightarrow> bool \<times> env"
  ext_ToNumber :: "val \<Rightarrow> env \<Rightarrow> int option"
  ext_kMaxLength :: nat
  ext_HAVE_INSPECTOR :: bool
  ext_Isolate_Allocate :: bool
  ext_per_context :: bool
  ext_SetupBootstrapObject :: "obj \<Rightarrow> env \<Rightarrow> env"
  ext_Environment_Start :: "string list \<Rightarrow> string list \<Rightarrow> env \<Rightarrow> env"
  ext_StartInspector :: "string option \<Rightarrow> env \<Rightarrow> env"
  ext_uv_run :: "env \<Rightarrow> env"
  ext_DrainTasks :: "env \<Rightarrow> env"
  ext_CancelPendingDelayedTasks :: "env \<Rightarrow> env"
  ext_RunBeforeExitCallbacks :: "env \<Rightarrow> env"
  ext_WaitForDisconnect :: "env \<Rightarrow> env"
  ext_stop_sub_worker_contexts :: "env \<Rightarrow> env"
  ext_RunCleanup :: "env \<Rightarrow> env"
  ext_RunAtExitCallbacks :: "env \<Rightarrow> env"

definition log :: "event \<Rightarrow> env \<Rightarrow> env" where
  "log ev e = e\<lparr>trace := trace e @ [ev]\<rparr>"

text \<open>A collaborator that changes the environment: its effect, then the event, on the
  caller's trace.\<close>

definition external :: "event \<Rightarrow> (env \<Rightarrow> env) \<Rightarrow> env \<Rightarrow> env" where
  "external ev f e = (f e)\<lparr>trace := trace e @ [ev]\<rparr>"

subsection \<open>The async-id stack\<close>

text \<open>
  Modelled from the spec: \<open>AsyncHooks::push_async_ids\<close>, \<open>pop_async_id\<close> and
  \<open>clear_async_id_stack\<close> are defined in \<open>env-inl.h\<close>, which is not among the embedded
  files.  The spec: construction "pushes the async-id pair onto the environment's
  async-id stack"; closing "pops the async-id pair (must match what was pushed -- mismatch
  is fatal)"; a bootstrap failure "requires the async-id stack to be reset".  Popping an
  empty stack does nothing: \<open>ExecuteBootstrapper\<close> clears the stack "so that the
  AsyncCallbackScope destructor doesn't fail on the id check", and \<open>Start\<close> pops after
  it.
\<close>

definition push_async_ids :: "async_id \<Rightarrow> async_id \<Rightarrow> env \<Rightarrow> env" where
  "push_async_ids a t e =
     log (PushAsyncIds a t) (e\<lparr>async_id_stack := (a, t) # async_id_stack e\<rparr>)"

definition pop_async_id :: "async_id \<Rightarrow> env \<Rightarrow> fatal + env" where
  "pop_async_id a e =
     (case async_id_stack e of
        [] \<Rightarrow> Inr e
      | (a', t') # rest \<Rightarrow>
          if a' \<noteq> a then Inl (AsyncStackCorrupted a' a)
          else Inr (log (PopAsyncId a) (e\<lparr>async_id_stack := rest\<rparr>)))"

definition clear_async_id_stack :: "env \<Rightarrow> env" where
  "clear_async_id_stack e = log ClearAsyncIdStack (e\<lparr>async_id_stack := []\<rparr>)"

subsection \<open>\<open>ExecuteBootstrapper\<close>\<close>

text \<open>\<open>per_process::native_module_loader.CompileAndCall\<close>: the collaborator's result and
  effect, recorded with the module id and whether the result is non-empty.\<close>

definition CompileAndCall ::
  "engine \<Rightarrow> string \<Rightarrow> string list \<Rightarrow> val list \<Rightarrow> env \<Rightarrow> val option \<times> env" where
  "CompileAndCall E ident parameters arguments e =
     (let (ret, e') = ext_CompileAndCall E ident parameters arguments e
      in (ret, e'\<lparr>trace := trace e @ [CompileAndCallEv ident (ret \<noteq> None)]\<rparr>))"

definition ExecuteBootstrapper ::
  "engine \<Rightarrow> string \<Rightarrow> string list \<Rightarrow> val list \<Rightarrow> env \<Rightarrow> val option \<times> env" where
  "ExecuteBootstrapper E ident parameters arguments e =
     (let (ret, e1) = CompileAndCall E ident parameters arguments e
      in if ret = None then (ret, clear_async_id_stack e1) else (ret, e1))"

subsection \<open>Checked handles and object properties\<close>

fun and_then :: "fatal + 'a \<Rightarrow> ('a \<Rightarrow> fatal + 'b) \<Rightarrow> fatal + 'b" where
  "and_then (Inl f) k = Inl f"
| "and_then (Inr x) k = k x"

text \<open>\<open>MaybeLocal::ToLocalChecked\<close>, \<open>Maybe::ToChecked\<close> and \<open>Maybe::FromJust\<close> abort on
  an empty handle; \<open>MaybeLocal::FromMaybe\<close> takes a default.\<close>

definition ToLocalChecked :: "'a option \<Rightarrow> fatal + 'a" where
  "ToLocalChecked m = (case m of None \<Rightarrow> Inl ToLocalCheckedEmpty | Some v \<Rightarrow> Inr v)"

definition ToChecked :: "'a option \<Rightarrow> fatal + 'a" where
  "ToChecked m = (case m of None \<Rightarrow> Inl FromJustNothing | Some v \<Rightarrow> Inr v)"

definition FromJust :: "'a option \<Rightarrow> fatal + 'a" where
  "FromJust m = ToChecked m"

definition FromMaybe :: "'a option \<Rightarrow> 'a option \<Rightarrow> 'a option" where
  "FromMaybe m d = (case m of None \<Rightarrow> d | Some v \<Rightarrow> Some v)"

text \<open>
  \<open>Object::Get\<close> and \<open>Object::Set\<close> on data properties: reading a missing property gives
  \<open>undefined\<close>, and neither operation throws (accessors and proxies are not modelled),
  so both results are non-empty.
\<close>

definition Get :: "env \<Rightarrow> obj \<Rightarrow> string \<Rightarrow> val option" where
  "Get e ob key = Some (case heap e ob key of None \<Rightarrow> Undefined | Some v \<Rightarrow> v)"

definition Set_property :: "obj \<Rightarrow> string \<Rightarrow> val \<Rightarrow> env \<Rightarrow> bool option \<times> env" where
  "Set_property ob key v e =
     (Some True, log (SetProperty ob key v) (e\<lparr>heap := (heap e)(ob := (heap e ob)(key \<mapsto> v))\<rparr>))"

text \<open>\<open>String::NewFromUtf8\<close> is empty for a string longer than the engine's
  \<open>String::kMaxLength\<close>.\<close>

definition NewFromUtf8 :: "engine \<Rightarrow> string \<Rightarrow> string option" where
  "NewFromUtf8 E s = (if length s \<le> ext_kMaxLength E then Some s else None)"

text \<open>
  The integer a value converts to (\<open>NaN\<close> converts to 0); the conversion of strings,
  functions and objects is the engine's and may throw (\<open>None\<close>).  \<open>Value::ToInteger\<close> gives
  it as a number, \<open>Value::Int32Value\<close> as a C \<open>int\<close> (modulo \<open>2^32\<close>), and
  \<open>Integer::New\<close> turns a C \<open>int\<close> into a number.
\<close>

definition to_integer :: "engine \<Rightarrow> env \<Rightarrow> val \<Rightarrow> int option" where
  "to_integer E e v =
     (case v of
        Num n \<Rightarrow> Some n
      | Undefined \<Rightarrow> Some 0
      | Null \<Rightarrow> Some 0
      | Bool b \<Rightarrow> Some (if b then 1 else 0)
      | _ \<Rightarrow> ext_ToNumber E v e)"

definition ToInteger :: "engine \<Rightarrow> env \<Rightarrow> val \<Rightarrow> val option" where
  "ToInteger E e v = map_option Num (to_integer E e v)"

definition Int32Value :: "engine \<Rightarrow> env \<Rightarrow> val \<Rightarrow> 32 word option" where
  "Int32Value E e v = map_option word_of_int (to_integer E e v)"

definition Integer_New :: "32 word \<Rightarrow> val" where
  "Integer_New code = Num (sint code)"

text \<open>
  Modelled from the spec: \<open>env->exit_code_string()\<close> and \<open>env->process_string()\<close> are
  per-isolate string constants declared in \<open>env.h\<close>, not among the embedded files; the
  first names the property holding the "environment's stored exit code", the second is
  the name under which the bootstrap scripts receive the process object.
\<close>

definition exit_code_string :: string where
  "exit_code_string = ''exitCode''"

definition process_string :: string where
  "process_string = ''process''"

subsection \<open>\<open>AsyncCallbackScope\<close> and \<open>InternalCallbackScope\<close>\<close>

text \<open>
  Modelled from the spec: \<open>Environment::AsyncCallbackScope\<close> is defined in \<open>env-inl.h\<close>,
  not among the embedded files.  It is the guard \<open>Start\<close> runs the bootstrap in ("inside
  one CallbackScope") and a member of every \<open>InternalCallbackScope\<close>; it counts the
  nesting that \<open>MakeCallback\<close> reads as \<open>makecallback_depth()\<close>.
\<close>

definition AsyncCallbackScope_enter :: "env \<Rightarrow> env" where
  "AsyncCallbackScope_enter e =
     log AsyncCallbackScopeEnter (e\<lparr>makecallback_depth := makecallback_depth e + 1\<rparr>)"

definition AsyncCallbackScope_exit :: "env \<Rightarrow> env" where
  "AsyncCallbackScope_exit e =
     log AsyncCallbackScopeExit (e\<lparr>makecallback_depth := makecallback_depth e - 1\<rparr>)"

datatype ResourceExpectation = kRequireResource | kAllowEmptyResource

text \<open>The data members of \<open>class InternalCallbackScope\<close> (\<open>node_internals.h\<close>);
  \<open>env_\<close> is the environment passed along, \<open>callback_scope_\<close> the guard above.\<close>

record scope =
  scope_async_context :: async_context
  object :: "obj option"
  failed :: bool
  pushed_ids :: bool
  closed :: bool

definition Failed :: "scope \<Rightarrow> bool" where
  "Failed s = failed s"

definition MarkAsFailed :: "scope \<Rightarrow> scope" where
  "MarkAsFailed s = s\<lparr>failed := True\<rparr>"

text \<open>
  Modelled from the spec: the constructor, \<open>Close\<close> and the destructor of
  \<open>InternalCallbackScope\<close> are defined in \<open>callback_scope.cc\<close>, not among the embedded
  files.  The spec (4.2): "On construction: pushes the async-id pair onto the
  environment's async-id stack; if the expectation is 'resource required' and none is
  given, construction fails fatally".  "\<open>Close()\<close> pops the async-id pair (must match what
  was pushed -- mismatch is fatal), flushes any pending microtask/domain work, and
  transitions to CLOSED_OK; if flushing surfaces an exception, transitions to
  CLOSED_FAILED instead.  \<open>MarkAsFailed()\<close> ... forces CLOSED_FAILED on close, skipping
  microtask flush".  "A scope ... becomes closed exactly once, either by explicit close
  or by destruction; closing after failure is a no-op that preserves the failed state".
  "Destructor: if still OPEN, performs the same pop+close logic as \<open>Close()\<close>".  The flush
  is a parameter: it returns whether it surfaced an exception.
\<close>

definition InternalCallbackScope ::
  "env \<Rightarrow> obj option \<Rightarrow> async_context \<Rightarrow> ResourceExpectation \<Rightarrow> fatal + env \<times> scope" where
  "InternalCallbackScope e ob asyncContext expect =
     (let e1 = AsyncCallbackScope_enter e
      in if expect = kRequireResource \<and> ob = None
         then Inl (CheckFailed ''CHECK_IMPLIES(expect == kRequireResource, !object.IsEmpty())'')
         else Inr (push_async_ids (async_id asyncContext) (trigger_async_id asyncContext) e1,
                   \<lparr>scope_async_context = asyncContext, object = ob,
                    failed = False, pushed_ids = True, closed = False\<rparr>))"

definition Close :: "(env \<Rightarrow> bool \<times> env) \<Rightarrow> env \<Rightarrow> scope \<Rightarrow> fatal + env \<times> scope" where
  "Close flush e s =
     (if closed s then Inr (e, s)
      else
        let s1 = s\<lparr>closed := True\<rparr>
        in and_then
             (if pushed_ids s1 then pop_async_id (async_id (scope_async_context s1)) e
              else Inr e)
             (\<lambda>e1.
                if failed s1 then Inr (e1, s1)
                else let (threw, e2) = flush e1 in Inr (e2, s1\<lparr>failed := threw\<rparr>)))"

definition InternalCallbackScope_destroy ::
  "(env \<Rightarrow> bool \<times> env) \<Rightarrow> env \<Rightarrow> scope \<Rightarrow> fatal + env" where
  "InternalCallbackScope_destroy flush e s =
     and_then (Close flush e s) (\<lambda>(e1, s1). Inr (AsyncCallbackScope_exit e1))"

subsection \<open>\<open>InternalMakeCallback\<close> and the public \<open>MakeCallback\<close>s\<close>

definition Call :: "engine \<Rightarrow> fn \<Rightarrow> obj option \<Rightarrow> val list \<Rightarrow> env \<Rightarrow> val option \<times> env" where
  "Call E f recv argv e =
     (let (ret, e') = ext_Call E f recv argv e
      in (ret, e'\<lparr>trace := trace e @ [FunctionCall f recv argv]\<rparr>))"

definition TickCallback :: "engine \<Rightarrow> env \<Rightarrow> bool \<times> env" where
  "TickCallback E e =
     (let (threw, e') = ext_TickCallback E e
      in (threw, e'\<lparr>trace := trace e @ [TickCallbackEv threw]\<rparr>))"

definition InternalMakeCallback ::
  "engine \<Rightarrow> obj option \<Rightarrow> fn \<Rightarrow> val list \<Rightarrow> async_context \<Rightarrow> env \<Rightarrow> fatal + val option \<times> env" where
  "InternalMakeCallback E recv callback argv asyncContext e =
     (if recv = None then Inl (CheckFailed ''CHECK(!recv.IsEmpty())'')
      else
        and_then (InternalCallbackScope e recv asyncContext kRequireResource)
          (\<lambda>(e1, scope).
             if Failed scope
             then and_then (InternalCallbackScope_destroy (TickCallback E) e1 scope)
                    (\<lambda>e2. Inr (None, e2))
             else
               let domain_cb = domain_callback e1;
                   (ret, e2) =
                     (if async_id asyncContext \<noteq> 0 \<or> domain_cb = None \<or> recv = None
                      then Call E callback recv argv e1
                      else case domain_cb of
                             Some dcb \<Rightarrow> Call E dcb recv (Function callback # argv) e1
                           | None \<Rightarrow> Call E callback recv argv e1)
               in if ret = None
                  then and_then
                         (InternalCallbackScope_destroy (TickCallback E) e2 (MarkAsFailed scope))
                         (\<lambda>e3. Inr (None, e3))
                  else and_then (Close (TickCallback E) e2 scope)
                         (\<lambda>(e3, scope1).
                            and_then (InternalCallbackScope_destroy (TickCallback E) e3 scope1)
                              (\<lambda>e4. if Failed scope1 then Inr (None, e4) else Inr (ret, e4)))))"

text \<open>\<open>MakeCallback(isolate, recv, Local<Function> callback, argc, argv, asyncContext)\<close>.
  There is one environment, so \<open>Environment::GetCurrent\<close> finds it.\<close>

definition MakeCallback_function ::
  "engine \<Rightarrow> obj option \<Rightarrow> fn \<Rightarrow> val list \<Rightarrow> async_context \<Rightarrow> env \<Rightarrow> fatal + val option \<times> env" where
  "MakeCallback_function E recv callback argv asyncContext e =
     and_then (InternalMakeCallback E recv callback argv asyncContext e)
       (\<lambda>(ret, e1).
          if ret = None \<and> makecallback_depth e1 = 0 then Inr (Some Undefined, e1)
          else Inr (ret, e1))"

text \<open>\<open>MakeCallback(isolate, recv, Local<String> symbol, argc, argv, asyncContext)\<close>;
  \<open>recv->Get\<close> on an empty handle dereferences a null pointer.\<close>

definition MakeCallback_symbol ::
  "engine \<Rightarrow> obj option \<Rightarrow> string \<Rightarrow> val list \<Rightarrow> async_context \<Rightarrow> env \<Rightarrow> fatal + val option \<times> env" where
  "MakeCallback_symbol E recv symbol argv asyncContext e =
     (case recv of
        None \<Rightarrow> Inl NullDereference
      | Some r \<Rightarrow>
          and_then (ToLocalChecked (Get e r symbol))
            (\<lambda>callback_v.
               case callback_v of
                 Function callback \<Rightarrow> MakeCallback_function E recv callback argv asyncContext e
               | _ \<Rightarrow> Inr (None, e)))"

text \<open>\<open>MakeCallback(isolate, recv, const char* method, argc, argv, asyncContext)\<close>.\<close>

definition MakeCallback_method ::
  "engine \<Rightarrow> obj option \<Rightarrow> string \<Rightarrow> val list \<Rightarrow> async_context \<Rightarrow> env \<Rightarrow> fatal + val option \<times> env" where
  "MakeCallback_method E recv method argv asyncContext e =
     and_then (ToLocalChecked (NewFromUtf8 E method))
       (\<lambda>method_string. MakeCallback_symbol E recv method_string argv asyncContext e)"

text \<open>The legacy overloads, without an async context: they pass \<open>{0, 0}\<close> and return a
  \<open>Local<Value>\<close>, which is empty when the call gave an empty \<open>MaybeLocal\<close>.\<close>

definition legacy_context :: async_context where
  "legacy_context = \<lparr>async_id = 0, trigger_async_id = 0\<rparr>"

definition MakeCallback_legacy_method ::
  "engine \<Rightarrow> obj option \<Rightarrow> string \<Rightarrow> val list \<Rightarrow> env \<Rightarrow> fatal + val option \<times> env" where
  "MakeCallback_legacy_method E recv method argv e =
     and_then (MakeCallback_method E recv method argv legacy_context e)
       (\<lambda>(ret, e1). Inr (FromMaybe ret None, e1))"

definition MakeCallback_legacy_symbol ::
  "engine \<Rightarrow> obj option \<Rightarrow> string \<Rightarrow> val list \<Rightarrow> env \<Rightarrow> fatal + val option \<times> env" where
  "MakeCallback_legacy_symbol E recv symbol argv e =
     and_then (MakeCallback_symbol E recv symbol argv legacy_context e)
       (\<lambda>(ret, e1). Inr (FromMaybe ret None, e1))"

definition MakeCallback_legacy_function ::
  "engine \<Rightarrow> obj option \<Rightarrow> fn \<Rightarrow> val list \<Rightarrow> env \<Rightarrow> fatal + val option \<times> env" where
  "MakeCallback_legacy_function E recv callback argv e =
     and_then (MakeCallback_function E recv callback argv legacy_context e)
       (\<lambda>(ret, e1). Inr (FromMaybe ret None, e1))"

subsection \<open>\<open>RunBeforeExit\<close>, \<open>EmitBeforeExit\<close> and \<open>EmitExit\<close>\<close>

text \<open>
  Modelled from the spec: \<open>uv_loop_alive\<close> is libuv's.  The spec's glossary: "Referenced
  work: any pending native handle/request whose presence keeps the event loop from being
  considered idle"; the loop is alive when it has referenced work.  Each query is
  recorded with its answer.
\<close>

definition uv_loop_alive :: "env \<Rightarrow> bool \<times> env" where
  "uv_loop_alive e = (0 < referenced_work e, log (LoopAlive (0 < referenced_work e)) e)"

definition EmitBeforeExit :: "engine \<Rightarrow> env \<Rightarrow> fatal + env" where
  "EmitBeforeExit E e =
     (let e0 = log EmitBeforeExitEv e;
          process_object = ProcessObject;
          exit_code = exit_code_string
      in and_then (ToLocalChecked (Get e0 process_object exit_code))
           (\<lambda>v. and_then (ToLocalChecked (ToInteger E e0 v))
              (\<lambda>i. let args = [Str ''beforeExit'', i]
                    in and_then
                         (MakeCallback_method E (Some process_object) ''emit'' args
                            \<lparr>async_id = 0, trigger_async_id = 0\<rparr> e0)
                         (\<lambda>(ret, e1). and_then (ToLocalChecked ret) (\<lambda>r. Inr e1)))))"

definition RunBeforeExit :: "engine \<Rightarrow> env \<Rightarrow> fatal + env" where
  "RunBeforeExit E e =
     (let e1 = external BeforeExitCallbacks (ext_RunBeforeExitCallbacks E) e;
          (alive, e2) = uv_loop_alive e1
      in if \<not> alive then EmitBeforeExit E e2 else Inr e2)"

definition EmitExit :: "engine \<Rightarrow> env \<Rightarrow> fatal + 32 word \<times> env" where
  "EmitExit E e =
     (let e0 = log EmitExitEv e;
          process_object = ProcessObject;
          (r, e1) = Set_property process_object ''_exiting'' (Bool True) e0
      in and_then (FromJust r)
           (\<lambda>_. let exit_code = exit_code_string
                 in and_then (ToLocalChecked (Get e1 process_object exit_code))
                      (\<lambda>v. and_then (ToChecked (Int32Value E e1 v))
                         (\<lambda>code.
                            let args = [Str ''exit'', Integer_New code]
                            in and_then
                                 (MakeCallback_method E (Some process_object) ''emit'' args
                                    \<lparr>async_id = 0, trigger_async_id = 0\<rparr> e1)
                                 (\<lambda>(ret, e2).
                                    and_then (ToLocalChecked ret)
                                      (\<lambda>_. and_then (ToLocalChecked (Get e2 process_object exit_code))
                                         (\<lambda>v2. and_then (ToChecked (Int32Value E e2 v2))
                                            (\<lambda>code2. Inr (code2, e2)))))))))"

subsection \<open>\<open>LoadEnvironment\<close>\<close>

definition Object_New :: "env \<Rightarrow> obj \<times> env" where
  "Object_New e = (Obj (next_obj e), e\<lparr>next_obj := next_obj e + 1\<rparr>)"

definition LoadEnvironment :: "engine \<Rightarrow> env \<Rightarrow> fatal + env" where
  "LoadEnvironment E e =
     (let global = GlobalObject;
          process = ProcessObject;
          (r, e1) = Set_property global ''global'' (Object global) e
      in and_then (FromJust r)
           (\<lambda>_. let (r2, e2) = Set_property process ''_rawDebug'' (Function (Native ''RawDebug'')) e1;
                     loaders_params =
                       [process_string, ''getBinding'', ''getLinkedBinding'',
                        ''getInternalBinding'', ''debugBreak''];
                     loaders_args =
                       [Object process,
                        Function (Native ''GetBinding''),
                        Function (Native ''GetLinkedBinding''),
                        Function (Native ''GetInternalBinding''),
                        Bool (break_node_first_line e2)];
                     (loader_exports, e3) =
                       ExecuteBootstrapper E ''internal/bootstrap/loaders''
                         loaders_params loaders_args e2
                 in case loader_exports of
                      None \<Rightarrow> Inr e3
                    | Some exports \<Rightarrow>
                        let (bootstrapper, e4) = Object_New e3;
                            e5 = external (SetupBootstrapObjectEv bootstrapper)
                                   (ext_SetupBootstrapObject E bootstrapper) e4;
                            node_params =
                              [process_string, ''bootstrappers'', ''loaderExports'',
                               ''triggerFatalException'', ''isMainThread''];
                            node_args =
                              [Object process,
                               Object bootstrapper,
                               exports,
                               Function (Native ''FatalException''),
                               Bool (is_main_thread e5)];
                            (ret, e6) =
                              ExecuteBootstrapper E ''internal/bootstrap/node''
                                node_params node_args e5
                        in Inr e6))"

subsection \<open>\<open>Start\<close>\<close>

text \<open>\<open>NewContext\<close>: the context is empty when \<open>Context::New\<close> gave none or the
  \<open>internal/per_context\<close> script failed; the engine says which.\<close>

definition NewContext :: "engine \<Rightarrow> bool" where
  "NewContext E = ext_per_context E"

definition StartInspector :: "engine \<Rightarrow> string option \<Rightarrow> env \<Rightarrow> fatal + env" where
  "StartInspector E path e =
     (if ext_HAVE_INSPECTOR E
      then if inspector_listening e
           then Inl (CheckFailed ''CHECK(!env->inspector_agent()->IsListening())'')
           else Inr (external StartInspectorEv (ext_StartInspector E path) e)
      else Inr e)"

definition InspectorStarted :: "engine \<Rightarrow> env \<Rightarrow> bool" where
  "InspectorStarted E e = (if ext_HAVE_INSPECTOR E then inspector_listening e else False)"

definition uv_run :: "engine \<Rightarrow> env \<Rightarrow> env" where
  "uv_run E e = external UvRun (ext_uv_run E) e"

definition DrainVMTasks :: "engine \<Rightarrow> env \<Rightarrow> env" where
  "DrainVMTasks E e = external DrainVMTasksEv (ext_DrainTasks E) e"

definition CancelVMTasks :: "engine \<Rightarrow> env \<Rightarrow> env" where
  "CancelVMTasks E e = external CancelVMTasksEv (ext_CancelPendingDelayedTasks E) e"

text \<open>\<open>WaitForInspectorDisconnect\<close> is empty without the inspector; with it, restoring
  the signal dispositions and waiting while the agent is active is the collaborator's.\<close>

definition WaitForInspectorDisconnect :: "engine \<Rightarrow> env \<Rightarrow> env" where
  "WaitForInspectorDisconnect E e =
     (if ext_HAVE_INSPECTOR E
      then external WaitForInspectorDisconnectEv (ext_WaitForDisconnect E) e
      else e)"

definition RunAtExit :: "engine \<Rightarrow> env \<Rightarrow> env" where
  "RunAtExit E e = external RunAtExitEv (ext_RunAtExitCallbacks E) e"

definition set_trace_sync_io :: "bool \<Rightarrow> env \<Rightarrow> env" where
  "set_trace_sync_io b e = log (SetTraceSyncIo b) (e\<lparr>trace_sync_io := b\<rparr>)"

definition set_can_call_into_js :: "bool \<Rightarrow> env \<Rightarrow> env" where
  "set_can_call_into_js b e = log (SetCanCallIntoJs b) (e\<lparr>can_call_into_js := b\<rparr>)"

text \<open>
  The \<open>do { ... } while (more == true)\<close> loop of \<open>Start\<close>.  It need not end: \<open>None\<close> is
  a loop that runs forever; \<open>Some (Inl f)\<close> is an abort inside \<open>EmitBeforeExit\<close>.
\<close>

partial_function (option) Start_loop :: "engine \<Rightarrow> env \<Rightarrow> (fatal + env) option" where
  "Start_loop E e =
     (let e1 = uv_run E e;
          e2 = DrainVMTasks E e1;
          (more, e3) = uv_loop_alive e2
      in if more then Start_loop E e3
         else case RunBeforeExit E e3 of
                Inl f \<Rightarrow> Some (Inl f)
              | Inr e4 \<Rightarrow>
                  let (more, e5) = uv_loop_alive e4
                  in if more = True then Start_loop E e5 else Some (Inr e5))"

text \<open>What \<open>Start\<close> does once the loop has ended.\<close>

definition Start_exit :: "engine \<Rightarrow> env \<Rightarrow> fatal + 32 word \<times> env" where
  "Start_exit E e =
     (let e1 = set_trace_sync_io False e
      in and_then (EmitExit E e1)
           (\<lambda>(exit_code, e2).
              let e3 = WaitForInspectorDisconnect E e2;
                  e4 = set_can_call_into_js False e3;
                  e5 = external StopSubWorkerContexts (ext_stop_sub_worker_contexts E) e4;
                  e6 = log UvTtyResetMode e5;
                  e7 = external RunCleanupEv (ext_RunCleanup E) e6;
                  e8 = RunAtExit E e7;
                  e9 = DrainVMTasks E e8;
                  e10 = CancelVMTasks E e9
              in Inr (exit_code, e10)))"

text \<open>The block of \<open>Start\<close> that runs the bootstrap.\<close>

definition Start_bootstrap :: "engine \<Rightarrow> env \<Rightarrow> fatal + env" where
  "Start_bootstrap E e =
     (let e1 = AsyncCallbackScope_enter e;
          e2 = push_async_ids 1 0 e1
      in and_then (LoadEnvironment E e2)
           (\<lambda>e3. and_then (pop_async_id 1 e3)
              (\<lambda>e4. Inr (AsyncCallbackScope_exit e4))))"

text \<open>
  \<open>Start(isolate, isolate_data, args, exec_args)\<close>; \<open>e\<close> is the \<open>Environment\<close> as
  constructed.  Entering an empty context dereferences a null pointer.
\<close>

definition Start_isolate ::
  "engine \<Rightarrow> string list \<Rightarrow> string list \<Rightarrow> env \<Rightarrow> (fatal + 32 word \<times> env) option" where
  "Start_isolate E args exec_args e =
     (if \<not> NewContext E then Some (Inl NullDereference)
      else
        let e1 = external EnvironmentStart (ext_Environment_Start E args exec_args) e;
            path = (if length args > 1 then Some (args ! 1) else None)
        in case StartInspector E path e1 of
             Inl f \<Rightarrow> Some (Inl f)
           | Inr e2 \<Rightarrow>
               if inspector_enabled e2 \<and> \<not> InspectorStarted E e2 then Some (Inr (12, e2))
               else (case Start_bootstrap E e2 of
                       Inl f \<Rightarrow> Some (Inl f)
                     | Inr e3 \<Rightarrow>
                         (case Start_loop E e3 of
                            None \<Rightarrow> None
                          | Some (Inl f) \<Rightarrow> Some (Inl f)
                          | Some (Inr e4) \<Rightarrow> Some (Start_exit E e4))))"

text \<open>\<open>NewIsolate\<close> gives no isolate when \<open>Isolate::Allocate\<close> gives none.\<close>

definition NewIsolate :: "engine \<Rightarrow> bool" where
  "NewIsolate E = ext_Isolate_Allocate E"

text \<open>\<open>Start(event_loop, args, exec_args)\<close>.\<close>

definition Start_event_loop ::
  "engine \<Rightarrow> string list \<Rightarrow> string list \<Rightarrow> env \<Rightarrow> (fatal + 32 word \<times> env) option" where
  "Start_event_loop E args exec_args e =
     (if \<not> NewIsolate E then Some (Inr (12, e))
      else Start_isolate E args exec_args e)"

subsection \<open>\<open>ThreadPoolWork\<close>\<close>

text \<open>
  Modelled from the spec: \<open>Environment::IncreaseWaitingRequestCounter\<close> and
  \<open>DecreaseWaitingRequestCounter\<close> are defined in \<open>env-inl.h\<close>, not among the embedded
  files.  The spec: \<open>ScheduleWork()\<close> "increments the environment's outstanding-work
  counter"; the completion runs "after decrementing the outstanding-work counter".  A
  counter below zero is a violated invariant, which aborts.
\<close>

definition IncreaseWaitingRequestCounter :: "env \<Rightarrow> env" where
  "IncreaseWaitingRequestCounter e = e\<lparr>request_waiting := request_waiting e + 1\<rparr>"

definition DecreaseWaitingRequestCounter :: "env \<Rightarrow> fatal + env" where
  "DecreaseWaitingRequestCounter e =
     (if request_waiting e - 1 < 0 then Inl (CheckFailed ''CHECK_GE(request_waiting_, 0)'')
      else Inr (e\<lparr>request_waiting := request_waiting e - 1\<rparr>))"

text \<open>
  Modelled from the spec: the work queue of the thread pool is libuv's.  The spec (4.3
  and 5): a request "is submitted at most once and completes at most once"; the worker
  runs \<open>DoThreadPoolWork()\<close> on a native thread; "on completion, the event-loop thread
  invokes \<open>AfterThreadPoolWork(status)\<close> ...; status is zero on success, a negative
  cancellation/error code otherwise"; cancellation is "requested only before a unit starts
  running; once running, cancellation is not honored and the unit runs to completion",
  and "cancellation of already-running or already-completed work is a no-op observed via
  the normal completion callback".  The state of the \<open>uv_work_t\<close> record of one unit:
\<close>

datatype req_state = NotSubmitted | Queued | Running | WorkDone | Cancelled | Completed

definition UV_ECANCELED :: int where
  "UV_ECANCELED = - 125"

definition UV_EBUSY :: int where
  "UV_EBUSY = - 16"

text \<open>What is called on a unit and on its environment's counter, in order.  The work
  runs on another thread: its call and its return are two events.\<close>

datatype work_event =
    IncreaseCounter
  | DecreaseCounter
  | DoThreadPoolWorkCalled
  | DoThreadPoolWorkReturned
  | AfterThreadPoolWorkCalled int

text \<open>\<open>class ThreadPoolWork\<close>: its environment and its request record; \<open>work_log\<close>
  records the calls.\<close>

record ThreadPoolWork =
  work_env :: env
  work_req :: req_state
  work_log :: "work_event list"

definition uv_queue_work :: "req_state \<Rightarrow> fatal + int \<times> req_state" where
  "uv_queue_work r =
     (case r of
        NotSubmitted \<Rightarrow> Inr (0, Queued)
      | _ \<Rightarrow> Inl (OutsideContract ''ScheduleWork() called more than once''))"

definition uv_cancel :: "req_state \<Rightarrow> fatal + int \<times> req_state" where
  "uv_cancel r =
     (case r of
        NotSubmitted \<Rightarrow> Inl (OutsideContract ''CancelWork() before ScheduleWork()'')
      | Queued \<Rightarrow> Inr (0, Cancelled)
      | Cancelled \<Rightarrow> Inr (0, Cancelled)
      | _ \<Rightarrow> Inr (UV_EBUSY, r))"

text \<open>The two callbacks \<open>ScheduleWork\<close> hands to \<open>uv_queue_work\<close>.  \<open>DoThreadPoolWork\<close>
  and \<open>AfterThreadPoolWork\<close> are pure virtual: here they only leave their events.\<close>

definition work_cb_enter :: "ThreadPoolWork \<Rightarrow> ThreadPoolWork" where
  "work_cb_enter w = w\<lparr>work_log := work_log w @ [DoThreadPoolWorkCalled]\<rparr>"

definition work_cb_return :: "ThreadPoolWork \<Rightarrow> ThreadPoolWork" where
  "work_cb_return w = w\<lparr>work_log := work_log w @ [DoThreadPoolWorkReturned]\<rparr>"

definition after_work_cb :: "int \<Rightarrow> ThreadPoolWork \<Rightarrow> fatal + ThreadPoolWork" where
  "after_work_cb status w =
     and_then (DecreaseWaitingRequestCounter (work_env w))
       (\<lambda>e1. Inr (w\<lparr>work_env := e1,
                      work_log := work_log w @ [DecreaseCounter, AfterThreadPoolWorkCalled status]\<rparr>))"

definition ScheduleWork :: "ThreadPoolWork \<Rightarrow> fatal + ThreadPoolWork" where
  "ScheduleWork w =
     (let w1 = w\<lparr>work_env := IncreaseWaitingRequestCounter (work_env w),
                 work_log := work_log w @ [IncreaseCounter]\<rparr>
      in and_then (uv_queue_work (work_req w1))
           (\<lambda>(status, r).
              if status \<noteq> 0 then Inl (CheckFailed ''CHECK_EQ(status, 0)'')
              else Inr (w1\<lparr>work_req := r\<rparr>)))"

definition CancelWork :: "ThreadPoolWork \<Rightarrow> fatal + int \<times> ThreadPoolWork" where
  "CancelWork w =
     and_then (uv_cancel (work_req w)) (\<lambda>(status, r). Inr (status, w\<lparr>work_req := r\<rparr>))"

text \<open>What can happen to a unit: the program calls \<open>ScheduleWork\<close> or \<open>CancelWork\<close>, a
  worker thread takes the queued request and calls the work, the work returns, the event
  loop runs the completion of a finished or cancelled request.  What cannot happen in
  the unit's state changes nothing.\<close>

datatype stimulus =
    CallScheduleWork
  | CallCancelWork
  | WorkerTakesRequest
  | WorkerFinishes
  | LoopRunsCompletion

fun pool_step :: "stimulus \<Rightarrow> ThreadPoolWork \<Rightarrow> fatal + ThreadPoolWork" where
  "pool_step CallScheduleWork w = ScheduleWork w"
| "pool_step CallCancelWork w = and_then (CancelWork w) (\<lambda>(status, w1). Inr w1)"
| "pool_step WorkerTakesRequest w =
     (if work_req w = Queued then Inr (work_cb_enter (w\<lparr>work_req := Running\<rparr>)) else Inr w)"
| "pool_step WorkerFinishes w =
     (if work_req w = Running then Inr (work_cb_return w\<lparr>work_req := WorkDone\<rparr>) else Inr w)"
| "pool_step LoopRunsCompletion w =
     (if work_req w = WorkDone then after_work_cb 0 (w\<lparr>work_req := Completed\<rparr>)
      else if work_req w = Cancelled then after_work_cb UV_ECANCELED (w\<lparr>work_req := Completed\<rparr>)
      else Inr w)"

fun pool_run :: "stimulus list \<Rightarrow> ThreadPoolWork \<Rightarrow> fatal + ThreadPoolWork" where
  "pool_run [] w = Inr w"
| "pool_run (x # xs) w = and_then (pool_step x w) (pool_run xs)"

text \<open>The two complete histories of a unit: the work ran, or it was cancelled before a
  worker took it.\<close>

definition history_success :: "work_event list" where
  "history_success =
     [IncreaseCounter, DoThreadPoolWorkCalled, DoThreadPoolWorkReturned, DecreaseCounter,
      AfterThreadPoolWorkCalled 0]"

definition history_cancelled :: "work_event list" where
  "history_cancelled = [IncreaseCounter, DecreaseCounter, AfterThreadPoolWorkCalled UV_ECANCELED]"

fun is_after :: "work_event \<Rightarrow> bool" where
  "is_after (AfterThreadPoolWorkCalled status) = True"
| "is_after _ = False"

text \<open>The log that goes with each state of the request, and the counter: one above its
  start while the request is in flight.\<close>

definition pool_inv :: "int \<Rightarrow> ThreadPoolWork \<Rightarrow> bool" where
  "pool_inv c0 w =
     (0 \<le> c0 \<and>
      (case work_req w of
         NotSubmitted \<Rightarrow> work_log w = [] \<and> request_waiting (work_env w) = c0
       | Queued \<Rightarrow> work_log w = take 1 history_success \<and> request_waiting (work_env w) = c0 + 1
       | Running \<Rightarrow> work_log w = take 2 history_success \<and> request_waiting (work_env w) = c0 + 1
       | WorkDone \<Rightarrow> work_log w = take 3 history_success \<and> request_waiting (work_env w) = c0 + 1
       | Cancelled \<Rightarrow> work_log w = take 1 history_cancelled \<and> request_waiting (work_env w) = c0 + 1
       | Completed \<Rightarrow>
           (work_log w = history_success \<or> work_log w = history_cancelled) \<and>
           request_waiting (work_env w) = c0))"

subsection \<open>Nested uses of callback scopes\<close>

text \<open>
  What a piece of native code can do with a stack-allocated \<open>InternalCallbackScope\<close>
  between its construction and its destruction: mark it failed, close it, and, in
  between, run code that uses scopes of its own.  \<open>InternalMakeCallback\<close> is the use
  with the body \<open>MarkAsFailed\<close> (the call gave an empty result) or \<open>Close\<close>.  The flag of
  \<open>OpClose\<close> and of \<open>ScopeUse\<close> says whether the flush of that close, or of the
  destructor's, surfaces an exception; script code run by a flush is the uses that
  follow it.
\<close>

datatype scope_op =
    OpMarkAsFailed
  | OpClose bool
  | OpNested scope_use
and scope_use =
    ScopeUse async_context "obj option" ResourceExpectation "scope_op list" bool

definition flush_outcome :: "bool \<Rightarrow> env \<Rightarrow> bool \<times> env" where
  "flush_outcome threw e = (threw, log (TickCallbackEv threw) e)"

fun run_use :: "scope_use \<Rightarrow> env \<Rightarrow> fatal + env"
  and run_op :: "scope_op \<Rightarrow> env \<Rightarrow> scope \<Rightarrow> fatal + env \<times> scope"
  and run_ops :: "scope_op list \<Rightarrow> env \<Rightarrow> scope \<Rightarrow> fatal + env \<times> scope" where
  "run_use (ScopeUse asyncContext ob expect body threw) e =
     (case InternalCallbackScope e ob asyncContext expect of
        Inl f \<Rightarrow> Inl f
      | Inr (e1, s) \<Rightarrow>
          (case run_ops body e1 s of
             Inl f \<Rightarrow> Inl f
           | Inr (e2, s2) \<Rightarrow> InternalCallbackScope_destroy (flush_outcome threw) e2 s2))"
| "run_op OpMarkAsFailed e s = Inr (e, MarkAsFailed s)"
| "run_op (OpClose threw) e s = Close (flush_outcome threw) e s"
| "run_op (OpNested u) e s =
     (case run_use u e of Inl f \<Rightarrow> Inl f | Inr e1 \<Rightarrow> Inr (e1, s))"
| "run_ops [] e s = Inr (e, s)"
| "run_ops (x # xs) e s =
     (case run_op x e s of Inl f \<Rightarrow> Inl f | Inr (e1, s1) \<Rightarrow> run_ops xs e1 s1)"

text \<open>The number of scopes a use constructs, and whether each gets the resource it
  requires.\<close>

fun scopes_use :: "scope_use \<Rightarrow> nat"
  and scopes_op :: "scope_op \<Rightarrow> nat"
  and scopes_ops :: "scope_op list \<Rightarrow> nat" where
  "scopes_use (ScopeUse asyncContext ob expect body threw) = Suc (scopes_ops body)"
| "scopes_op OpMarkAsFailed = 0"
| "scopes_op (OpClose threw) = 0"
| "scopes_op (OpNested u) = scopes_use u"
| "scopes_ops [] = 0"
| "scopes_ops (x # xs) = scopes_op x + scopes_ops xs"

fun resources_ok_use :: "scope_use \<Rightarrow> bool"
  and resources_ok_op :: "scope_op \<Rightarrow> bool"
  and resources_ok_ops :: "scope_op list \<Rightarrow> bool" where
  "resources_ok_use (ScopeUse asyncContext ob expect body threw) =
     ((expect = kAllowEmptyResource \<or> ob \<noteq> None) \<and> resources_ok_ops body)"
| "resources_ok_op OpMarkAsFailed = True"
| "resources_ok_op (OpClose threw) = True"
| "resources_ok_op (OpNested u) = resources_ok_use u"
| "resources_ok_ops [] = True"
| "resources_ok_ops (x # xs) = (resources_ok_op x \<and> resources_ok_ops xs)"

text \<open>The pushes and the pops on a trace, and the trace replayed on a stack: every pop
  must find its id on top (last in, first out).\<close>

fun pushes :: "event list \<Rightarrow> nat" where
  "pushes [] = 0"
| "pushes (PushAsyncIds a t # evs) = Suc (pushes evs)"
| "pushes (ev # evs) = pushes evs"

fun pops :: "event list \<Rightarrow> nat" where
  "pops [] = 0"
| "pops (PopAsyncId a # evs) = Suc (pops evs)"
| "pops (ev # evs) = pops evs"

fun replay :: "event list \<Rightarrow> (async_id \<times> async_id) list \<Rightarrow> (async_id \<times> async_id) list option" where
  "replay [] st = Some st"
| "replay (PushAsyncIds a t # evs) st = replay evs ((a, t) # st)"
| "replay (PopAsyncId a # evs) st =
     (case st of
        [] \<Rightarrow> None
      | (a', t') # rest \<Rightarrow> if a' = a then replay evs rest else None)"
| "replay (ev # evs) st = replay evs st"

text \<open>The async-id stack while a scope constructed on the stack \<open>base\<close> is open, and once it
  is closed.\<close>

definition scope_inv :: "(async_id \<times> async_id) list \<Rightarrow> env \<Rightarrow> scope \<Rightarrow> bool" where
  "scope_inv base e s =
     (pushed_ids s \<and>
      async_id_stack e =
        (if closed s then base
         else (async_id (scope_async_context s), trigger_async_id (scope_async_context s)) # base))"

text \<open>What the balance of a use, of an operation on an open or closed scope, and of a
  sequence of operations means: the run does not abort, the stack below the scope is
  untouched, and the trace it adds has one push and one pop per scope constructed (plus
  the pop of the enclosing scope when the operations close it) and replays on the
  stack.\<close>

definition use_balanced :: "scope_use \<Rightarrow> env \<Rightarrow> bool" where
  "use_balanced u e =
     (\<exists>e' tr. run_use u e = Inr e' \<and>
        async_id_stack e' = async_id_stack e \<and>
        makecallback_depth e' = makecallback_depth e \<and>
        trace e' = trace e @ tr \<and>
        pushes tr = scopes_use u \<and> pops tr = scopes_use u \<and>
        replay tr (async_id_stack e) = Some (async_id_stack e))"

definition op_balanced :: "scope_op \<Rightarrow> env \<Rightarrow> scope \<Rightarrow> bool" where
  "op_balanced x e s =
     (\<forall>base. scope_inv base e s \<longrightarrow>
        (\<exists>e' s' tr. run_op x e s = Inr (e', s') \<and>
           scope_inv base e' s' \<and> (closed s \<longrightarrow> closed s') \<and>
           makecallback_depth e' = makecallback_depth e \<and>
           trace e' = trace e @ tr \<and>
           pushes tr = scopes_op x \<and>
           pops tr = scopes_op x + (if closed s' \<and> \<not> closed s then 1 else 0) \<and>
           replay tr (async_id_stack e) = Some (async_id_stack e')))"

definition ops_balanced :: "scope_op list \<Rightarrow> env \<Rightarrow> scope \<Rightarrow> bool" where
  "ops_balanced xs e s =
     (\<forall>base. scope_inv base e s \<longrightarrow>
        (\<exists>e' s' tr. run_ops xs e s = Inr (e', s') \<and>
           scope_inv base e' s' \<and> (closed s \<longrightarrow> closed s') \<and>
           makecallback_depth e' = makecallback_depth e \<and>
           trace e' = trace e @ tr \<and>
           pushes tr = scopes_ops xs \<and>
           pops tr = scopes_ops xs + (if closed s' \<and> \<not> closed s then 1 else 0) \<and>
           replay tr (async_id_stack e) = Some (async_id_stack e')))"

text \<open>The script calls and flushes of an engine leave the async-id stack as they find
  it (as script code does whose own re-entries into native code are balanced).\<close>

definition stack_neutral :: "engine \<Rightarrow> bool" where
  "stack_neutral E =
     ((\<forall>f recv argv e. async_id_stack (snd (ext_Call E f recv argv e)) = async_id_stack e) \<and>
      (\<forall>e. async_id_stack (snd (ext_TickCallback E e)) = async_id_stack e))"

text \<open>A use with nested scopes, early closes, a double close and failures.\<close>

definition example_use :: scope_use where
  "example_use =
     ScopeUse \<lparr>async_id = 5, trigger_async_id = 1\<rparr> (Some ProcessObject) kRequireResource
       [OpNested (ScopeUse \<lparr>async_id = 7, trigger_async_id = 5\<rparr> (Some (Obj 1)) kRequireResource
                    [OpMarkAsFailed] False),
        OpClose True,
        OpNested (ScopeUse \<lparr>async_id = 0, trigger_async_id = 0\<rparr> None kAllowEmptyResource
                    [OpClose False, OpMarkAsFailed, OpClose False] False),
        OpClose False]
       False"

subsection \<open>Observations on environments and traces\<close>

text \<open>The exit code stored in the process object, read the way \<open>EmitExit\<close> reads it.\<close>

definition stored_exit_code :: "engine \<Rightarrow> env \<Rightarrow> 32 word option" where
  "stored_exit_code E e =
     (case Get e ProcessObject exit_code_string of
        None \<Rightarrow> None
      | Some v \<Rightarrow> Int32Value E e v)"

text \<open>The events of one \<open>MakeCallback\<close>: its scope, its pushes and pops, the call and the
  flush.\<close>

fun is_callback_event :: "event \<Rightarrow> bool" where
  "is_callback_event AsyncCallbackScopeEnter = True"
| "is_callback_event AsyncCallbackScopeExit = True"
| "is_callback_event (PushAsyncIds a t) = True"
| "is_callback_event (PopAsyncId a) = True"
| "is_callback_event (FunctionCall f recv argv) = True"
| "is_callback_event (TickCallbackEv b) = True"
| "is_callback_event _ = False"

text \<open>The function a callback scope ends up calling, and its arguments: the callback
  itself, or the domain callback with the callback as its first argument.\<close>

definition callee :: "env \<Rightarrow> async_context \<Rightarrow> fn \<Rightarrow> fn" where
  "callee e ctx callback =
     (case domain_callback e of
        None \<Rightarrow> callback
      | Some dcb \<Rightarrow> if async_id ctx \<noteq> 0 then callback else dcb)"

definition callee_args :: "env \<Rightarrow> async_context \<Rightarrow> fn \<Rightarrow> val list \<Rightarrow> val list" where
  "callee_args e ctx callback argv =
     (case domain_callback e of
        None \<Rightarrow> argv
      | Some dcb \<Rightarrow> if async_id ctx \<noteq> 0 then argv else Function callback # argv)"

text \<open>The events of \<open>LoadEnvironment\<close>: property writes and the bootstrap scripts.\<close>

fun is_bootstrap_event :: "event \<Rightarrow> bool" where
  "is_bootstrap_event (SetProperty ob key v) = True"
| "is_bootstrap_event (CompileAndCallEv ident ok) = True"
| "is_bootstrap_event ClearAsyncIdStack = True"
| "is_bootstrap_event (SetupBootstrapObjectEv ob) = True"
| "is_bootstrap_event _ = False"

text \<open>What one \<open>RunBeforeExit\<close> leaves on the trace: the native callbacks, the liveness
  query and, when the loop is not alive, the \<open>'beforeExit'\<close> emission.\<close>

definition before_exit_pass :: "bool \<Rightarrow> event list \<Rightarrow> event list" where
  "before_exit_pass alive evs =
     [BeforeExitCallbacks, LoopAlive alive] @ (if alive then [] else EmitBeforeExitEv # evs)"

text \<open>The traces of the \<open>do ... while\<close> loop of \<open>Start\<close> that end: turns that find the
  loop alive after \<open>uv_run\<close>, turns whose before-exit pass leaves it alive, and a last
  turn whose before-exit pass leaves it idle.\<close>

inductive loop_trace :: "event list \<Rightarrow> bool" where
  wake: "loop_trace tr \<Longrightarrow> loop_trace ([UvRun, DrainVMTasksEv, LoopAlive True] @ tr)"
| rearm: "list_all is_callback_event evs \<Longrightarrow> loop_trace tr \<Longrightarrow>
          loop_trace ([UvRun, DrainVMTasksEv, LoopAlive False] @ before_exit_pass alive evs
                      @ [LoopAlive True] @ tr)"
| last: "list_all is_callback_event evs \<Longrightarrow>
         loop_trace ([UvRun, DrainVMTasksEv, LoopAlive False] @ before_exit_pass alive evs
                     @ [LoopAlive False])"


text \<open>The part of the trace a run added.\<close>

definition new_events :: "env \<Rightarrow> env \<Rightarrow> event list" where
  "new_events e e' = drop (length (trace e)) (trace e')"

text \<open>One turn of the loop up to its first liveness query: \<open>uv_run\<close>,
  \<open>DrainVMTasks\<close>, \<open>uv_loop_alive\<close>.\<close>

definition turn :: "engine \<Rightarrow> env \<Rightarrow> env" where
  "turn E e = snd (uv_loop_alive (DrainVMTasks E (uv_run E e)))"

text \<open>The event loop first goes idle in the turn after \<open>n\<close> turns that left it alive.\<close>

fun idle_after :: "engine \<Rightarrow> env \<Rightarrow> nat \<Rightarrow> bool" where
  "idle_after E e 0 = (referenced_work (turn E e) = 0)"
| "idle_after E e (Suc n) = (0 < referenced_work (turn E e) \<and> idle_after E (turn E e) n)"

text \<open>The environment after those \<open>n + 1\<close> turns.\<close>

fun after_turns :: "engine \<Rightarrow> env \<Rightarrow> nat \<Rightarrow> env" where
  "after_turns E e 0 = turn E e"
| "after_turns E e (Suc n) = after_turns E (turn E e) n"

text \<open>The before-exit hooks (the native callbacks and the \<open>'beforeExit'\<close> listeners) never
  schedule referenced work: a pass on an idle loop leaves it idle.\<close>

definition quiet_hooks :: "engine \<Rightarrow> bool" where
  "quiet_hooks E =
     (\<forall>e e'. referenced_work e = 0 \<and> RunBeforeExit E e = Inr e' \<longrightarrow> referenced_work e' = 0)"

text \<open>The events of \<open>EmitExit\<close> and of the wait for the inspector.\<close>

fun is_exit_event :: "event \<Rightarrow> bool" where
  "is_exit_event (SetProperty ob key v) = True"
| "is_exit_event WaitForInspectorDisconnectEv = True"
| "is_exit_event ev = is_callback_event ev"

text \<open>What \<open>Start\<close> does after the exit notification, in order.\<close>

definition teardown_events :: "event list" where
  "teardown_events =
     [SetCanCallIntoJs False, StopSubWorkerContexts, UvTtyResetMode, RunCleanupEv,
      RunAtExitEv, DrainVMTasksEv, CancelVMTasksEv]"





text \<open>The bootstrap scripts and \<open>SetupBootstrapObject\<close> leave the async-id stack as they
  find it.\<close>

definition bootstrap_keeps_stack :: "engine \<Rightarrow> bool" where
  "bootstrap_keeps_stack E =
     ((\<forall>ident ps as e.
         async_id_stack (snd (ext_CompileAndCall E ident ps as e)) = async_id_stack e) \<and>
      (\<forall>ob e. async_id_stack (ext_SetupBootstrapObject E ob e) = async_id_stack e))"

subsection \<open>A concrete engine and environment\<close>

text \<open>
  An engine whose scripts all return \<open>undefined\<close> and change nothing, and an environment as
  \<open>Start\<close> first sees it: the process object has an \<open>emit\<close> function and the exit code 0.
  The scenarios below change one collaborator at a time.
\<close>

definition engine0 :: engine where
  "engine0 =
     \<lparr>ext_Call = (\<lambda>f recv argv e. (Some Undefined, e)),
      ext_CompileAndCall = (\<lambda>ident ps as e. (Some Undefined, e)),
      ext_TickCallback = (\<lambda>e. (False, e)),
      ext_ToNumber = (\<lambda>v e. Some 0),
      ext_kMaxLength = 1073741799,
      ext_HAVE_INSPECTOR = True,
      ext_Isolate_Allocate = True,
      ext_per_context = True,
      ext_SetupBootstrapObject = (\<lambda>ob e. e),
      ext_Environment_Start = (\<lambda>args exec_args e. e),
      ext_StartInspector = (\<lambda>path e. e),
      ext_uv_run = (\<lambda>e. e\<lparr>referenced_work := 0\<rparr>),
      ext_DrainTasks = (\<lambda>e. e),
      ext_CancelPendingDelayedTasks = (\<lambda>e. e),
      ext_RunBeforeExitCallbacks = (\<lambda>e. e),
      ext_WaitForDisconnect = (\<lambda>e. e),
      ext_stop_sub_worker_contexts = (\<lambda>e. e),
      ext_RunCleanup = (\<lambda>e. e),
      ext_RunAtExitCallbacks = (\<lambda>e. e)\<rparr>"

definition heap0 :: "obj \<Rightarrow> string \<Rightarrow> val option" where
  "heap0 ob =
     (if ob = ProcessObject
      then [''emit'' \<mapsto> Function (Script 0), ''exitCode'' \<mapsto> Num 0]
      else Map.empty)"

definition env0 :: env where
  "env0 =
     \<lparr>async_id_stack = [],
      makecallback_depth = 0,
      can_call_into_js = True,
      trace_sync_io = True,
      domain_callback = None,
      inspector_enabled = False,
      inspector_listening = False,
      break_node_first_line = False,
      is_main_thread = True,
      heap = heap0,
      next_obj = 0,
      request_waiting = 0,
      referenced_work = 0,
      trace = []\<rparr>"

text \<open>A bootstrap script that fails.\<close>

definition engine_bootstrap_fails :: engine where
  "engine_bootstrap_fails = engine0\<lparr>ext_CompileAndCall := (\<lambda>ident ps as e. (None, e))\<rparr>"

text \<open>Script functions that throw.\<close>

definition engine_call_throws :: engine where
  "engine_call_throws = engine0\<lparr>ext_Call := (\<lambda>f recv argv e. (None, e))\<rparr>"

text \<open>An \<open>emit\<close> whose \<open>'exit'\<close> listener sets \<open>process.exitCode\<close> to the given number.\<close>

definition set_exit_code :: "int \<Rightarrow> env \<Rightarrow> env" where
  "set_exit_code n e =
     e\<lparr>heap := (heap e)(ProcessObject := (heap e ProcessObject)(''exitCode'' \<mapsto> Num n))\<rparr>"

definition engine_exit_sets :: "int \<Rightarrow> engine" where
  "engine_exit_sets n =
     engine0\<lparr>ext_Call :=
       (\<lambda>f recv argv e.
          (Some Undefined, if take 1 argv = [Str ''exit''] then set_exit_code n e else e))\<rparr>"

text \<open>An engine whose \<open>Isolate::Allocate\<close> gives no isolate.\<close>

definition engine_no_isolate :: engine where
  "engine_no_isolate = engine0\<lparr>ext_Isolate_Allocate := False\<rparr>"

text \<open>A \<open>'beforeExit'\<close> listener that schedules one unit of referenced work the first time
  it runs, and notes on the process object that it has.  \<open>uv_run\<close> of \<open>engine0\<close> runs the
  loop until no referenced work is left.\<close>

definition rearm_once :: "env \<Rightarrow> env" where
  "rearm_once e =
     (if heap e ProcessObject ''rearmed'' = None
      then e\<lparr>referenced_work := referenced_work e + 1,
             heap := (heap e)(ProcessObject := (heap e ProcessObject)(''rearmed'' \<mapsto> Bool True))\<rparr>
      else e)"

definition engine_rearm_once :: engine where
  "engine_rearm_once =
     engine0\<lparr>ext_Call :=
       (\<lambda>f recv argv e.
          (Some Undefined, if take 1 argv = [Str ''beforeExit''] then rearm_once e else e))\<rparr>"

text \<open>A unit that has not been scheduled.\<close>

definition work0 :: ThreadPoolWork where
  "work0 = \<lparr>work_env = env0, work_req = NotSubmitted, work_log = []\<rparr>"

section \<open>Theorems\<close>

subsection \<open>How the trace grows\<close>

lemmas eval_defs =
  ExecuteBootstrapper_def CompileAndCall_def clear_async_id_stack_def log_def external_def
  push_async_ids_def pop_async_id_def ToLocalChecked_def ToChecked_def FromJust_def
  FromMaybe_def Get_def Set_property_def NewFromUtf8_def to_integer_def ToInteger_def
  Int32Value_def Integer_New_def exit_code_string_def process_string_def
  AsyncCallbackScope_enter_def AsyncCallbackScope_exit_def Failed_def MarkAsFailed_def
  InternalCallbackScope_def Close_def InternalCallbackScope_destroy_def Call_def
  TickCallback_def InternalMakeCallback_def MakeCallback_function_def
  MakeCallback_symbol_def MakeCallback_method_def legacy_context_def
  MakeCallback_legacy_method_def MakeCallback_legacy_symbol_def
  MakeCallback_legacy_function_def uv_loop_alive_def EmitBeforeExit_def RunBeforeExit_def
  EmitExit_def Object_New_def LoadEnvironment_def NewContext_def StartInspector_def
  InspectorStarted_def uv_run_def DrainVMTasks_def CancelVMTasks_def
  WaitForInspectorDisconnect_def RunAtExit_def set_trace_sync_io_def
  set_can_call_into_js_def Start_exit_def Start_bootstrap_def Start_isolate_def
  NewIsolate_def Start_event_loop_def stored_exit_code_def callee_def callee_args_def
  engine0_def heap0_def env0_def engine_bootstrap_fails_def engine_call_throws_def
  set_exit_code_def engine_exit_sets_def engine_no_isolate_def rearm_once_def
  engine_rearm_once_def turn_def work0_def ScheduleWork_def CancelWork_def uv_queue_work_def
  uv_cancel_def work_cb_enter_def work_cb_return_def after_work_cb_def
  IncreaseWaitingRequestCounter_def DecreaseWaitingRequestCounter_def history_success_def
  history_cancelled_def UV_ECANCELED_def UV_EBUSY_def

lemma and_then_Inr_iff: "and_then m k = Inr y \<longleftrightarrow> (\<exists>x. m = Inr x \<and> k x = Inr y)"
  by (cases m) auto

lemma trace_log: "trace (log ev e) = trace e @ [ev]"
  by (simp add: log_def)

lemma trace_external: "trace (external ev f e) = trace e @ [ev]"
  by (simp add: external_def)

lemma trace_Call: "Call E f r a e = (ret, e') \<Longrightarrow> trace e' = trace e @ [FunctionCall f r a]"
  by (auto simp: Call_def split: prod.splits)

lemma trace_TickCallback: "TickCallback E e = (b, e') \<Longrightarrow> trace e' = trace e @ [TickCallbackEv b]"
  by (auto simp: TickCallback_def split: prod.splits)

lemma trace_pop_async_id:
  "pop_async_id a e = Inr e' \<Longrightarrow> trace e' = trace e \<or> trace e' = trace e @ [PopAsyncId a]"
  by (auto simp: pop_async_id_def log_def split: list.splits if_splits)

lemma trace_Close_Tick:
  assumes "Close (TickCallback E) e s = Inr (e', s')"
  shows "\<exists>evs. trace e' = trace e @ evs \<and> list_all is_callback_event evs"
  using assms
  by (auto simp: Close_def Let_def and_then_Inr_iff split: if_splits prod.splits
      dest!: trace_TickCallback trace_pop_async_id)

lemma trace_destroy_Tick:
  assumes "InternalCallbackScope_destroy (TickCallback E) e s = Inr e'"
  shows "\<exists>evs. trace e' = trace e @ evs \<and> list_all is_callback_event evs"
  using assms
  by (auto simp: InternalCallbackScope_destroy_def and_then_Inr_iff AsyncCallbackScope_exit_def log_def
      dest!: trace_Close_Tick)

lemma trace_InternalMakeCallback:
  assumes "InternalMakeCallback E recv callback argv ctx e = Inr (ret, e')"
  shows "\<exists>post. trace e' =
           trace e @ [AsyncCallbackScopeEnter,
                      PushAsyncIds (async_id ctx) (trigger_async_id ctx),
                      FunctionCall (callee e ctx callback) recv (callee_args e ctx callback argv)] @ post
         \<and> list_all is_callback_event post"
proof -
  define e1 where "e1 = push_async_ids (async_id ctx) (trigger_async_id ctx) (AsyncCallbackScope_enter e)"
  define sc where "sc = \<lparr>scope_async_context = ctx, object = recv,
                    failed = False, pushed_ids = True, closed = False\<rparr>"
  define f where "f = callee e ctx callback"
  define a where "a = callee_args e ctx callback argv"
  have t1: "trace e1 = trace e @ [AsyncCallbackScopeEnter, PushAsyncIds (async_id ctx) (trigger_async_id ctx)]"
    and d1: "domain_callback e1 = domain_callback e"
    by (simp_all add: e1_def push_async_ids_def AsyncCallbackScope_enter_def log_def)
  obtain r0 e2 where c: "Call E f recv a e1 = (r0, e2)" by (cases "Call E f recv a e1")
  from assms have recv: "recv \<noteq> None" by (auto simp: InternalMakeCallback_def split: if_splits)
  from c have t2: "trace e2 = trace e1 @ [FunctionCall f recv a]" by (rule trace_Call)
  have nf: "\<not> failed sc" by (simp add: sc_def)
  from assms recv c nf have "\<exists>evs. trace e' = trace e2 @ evs \<and> list_all is_callback_event evs"
    by (auto simp: InternalMakeCallback_def InternalCallbackScope_def Failed_def Let_def
        e1_def[symmetric] sc_def[symmetric] d1 f_def a_def callee_def callee_args_def and_then_Inr_iff
        split: if_splits option.splits dest!: trace_destroy_Tick trace_Close_Tick)
  with t1 t2 show ?thesis by (auto simp: f_def a_def)
qed

lemma trace_MakeCallback_function:
  assumes "MakeCallback_function E recv callback argv ctx e = Inr (ret, e')"
  shows "\<exists>post. trace e' =
           trace e @ [AsyncCallbackScopeEnter,
                      PushAsyncIds (async_id ctx) (trigger_async_id ctx),
                      FunctionCall (callee e ctx callback) recv (callee_args e ctx callback argv)] @ post
         \<and> list_all is_callback_event post"
  using assms
  by (auto simp: MakeCallback_function_def and_then_Inr_iff split: if_splits
      dest!: trace_InternalMakeCallback)

lemma trace_MakeCallback_method:
  assumes "MakeCallback_method E (Some r) m argv ctx e = Inr (Some v, e')"
  shows "\<exists>callback post.
           Get e r m = Some (Function callback) \<and>
           trace e' =
             trace e @ [AsyncCallbackScopeEnter,
                        PushAsyncIds (async_id ctx) (trigger_async_id ctx),
                        FunctionCall (callee e ctx callback) (Some r)
                          (callee_args e ctx callback argv)] @ post
           \<and> list_all is_callback_event post"
  using assms
  by (auto simp: MakeCallback_method_def MakeCallback_symbol_def and_then_Inr_iff ToLocalChecked_def
      NewFromUtf8_def split: option.splits val.splits if_splits dest!: trace_MakeCallback_function)

lemma EmitExit_unfold:
  assumes "EmitExit E e = Inr (code, e')"
  shows "\<exists>c0 ret.
           stored_exit_code E (snd (Set_property ProcessObject ''_exiting'' (Bool True) (log EmitExitEv e))) = Some c0 \<and>
           MakeCallback_method E (Some ProcessObject) ''emit'' [Str ''exit'', Integer_New c0]
             \<lparr>async_id = 0, trigger_async_id = 0\<rparr>
             (snd (Set_property ProcessObject ''_exiting'' (Bool True) (log EmitExitEv e))) = Inr (Some ret, e') \<and>
           stored_exit_code E e' = Some code"
  using assms
  by (auto simp: EmitExit_def Let_def and_then_Inr_iff stored_exit_code_def FromJust_def ToChecked_def
      ToLocalChecked_def Get_def split: prod.splits option.splits)



lemma EmitBeforeExit_trace:
  assumes "EmitBeforeExit E e = Inr e'"
  shows "\<exists>evs. trace e' = trace e @ EmitBeforeExitEv # evs \<and> list_all is_callback_event evs"
  using assms
  by (auto simp: EmitBeforeExit_def Let_def and_then_Inr_iff ToLocalChecked_def log_def
      split: option.splits prod.splits dest!: trace_MakeCallback_method)

lemma RunBeforeExit_trace:
  assumes "RunBeforeExit E e = Inr e'"
  shows "\<exists>alive evs. trace e' = trace e @ before_exit_pass alive evs \<and>
           list_all is_callback_event evs"
proof -
  define e1 where "e1 = external BeforeExitCallbacks (ext_RunBeforeExitCallbacks E) e"
  define e2 where "e2 = snd (uv_loop_alive e1)"
  have t: "trace e2 = trace e @ [BeforeExitCallbacks, LoopAlive (0 < referenced_work e1)]"
    by (simp add: e2_def e1_def uv_loop_alive_def log_def external_def)
  show ?thesis
  proof (cases "0 < referenced_work e1")
    case True
    with assms have "e' = e2"
      by (simp add: RunBeforeExit_def Let_def e1_def[symmetric] e2_def uv_loop_alive_def)
    with t True show ?thesis
      by (auto simp: before_exit_pass_def intro!: exI[of _ True] exI[of _ "[]"])
  next
    case False
    with assms have "EmitBeforeExit E e2 = Inr e'"
      by (simp add: RunBeforeExit_def Let_def e1_def[symmetric] e2_def uv_loop_alive_def)
    from EmitBeforeExit_trace[OF this] t False show ?thesis
      by (auto simp: before_exit_pass_def intro!: exI[of _ False])
  qed
qed

lemma trace_turn:
  "trace (turn E e) = trace e @ [UvRun, DrainVMTasksEv, LoopAlive (0 < referenced_work (turn E e))]"
  by (simp add: turn_def uv_loop_alive_def uv_run_def DrainVMTasks_def external_def log_def)

lemma fst_uv_loop_alive: "fst (uv_loop_alive e) = (0 < referenced_work e)"
  by (simp add: uv_loop_alive_def)

lemma referenced_work_snd_uv_loop_alive: "referenced_work (snd (uv_loop_alive e)) = referenced_work e"
  by (simp add: uv_loop_alive_def log_def)

lemma loop_body_eq:
  "(let e1 = uv_run E e;
        e2 = DrainVMTasks E e1;
        (more, e3) = uv_loop_alive e2
    in if more then L e3
       else case RunBeforeExit E e3 of
              Inl f \<Rightarrow> Some (Inl f)
            | Inr e4 \<Rightarrow>
                let (more, e5) = uv_loop_alive e4
                in if more = True then L e5 else Some (Inr e5)) =
   (if 0 < referenced_work (turn E e) then L (turn E e)
    else case RunBeforeExit E (turn E e) of
           Inl f \<Rightarrow> Some (Inl f)
         | Inr e4 \<Rightarrow>
             if 0 < referenced_work e4 then L (snd (uv_loop_alive e4))
             else Some (Inr (snd (uv_loop_alive e4))))"
  by (simp add: Let_def case_prod_beta turn_def fst_uv_loop_alive
      referenced_work_snd_uv_loop_alive cong: sum.case_cong)

lemma Start_loop_unfold:
  "Start_loop E e =
     (if 0 < referenced_work (turn E e) then Start_loop E (turn E e)
      else case RunBeforeExit E (turn E e) of
             Inl f \<Rightarrow> Some (Inl f)
           | Inr e4 \<Rightarrow>
               if 0 < referenced_work e4 then Start_loop E (snd (uv_loop_alive e4))
               else Some (Inr (snd (uv_loop_alive e4))))"
  by (subst Start_loop.simps) (rule loop_body_eq)

lemma Start_loop_trace:
  assumes "Start_loop E e = Some r"
  shows "\<forall>e'. r = Inr e' \<longrightarrow> (\<exists>tr. trace e' = trace e @ tr \<and> loop_trace tr)"
proof (rule Start_loop.raw_induct
    [where P = "\<lambda>E e r. \<forall>e'. r = Inr e' \<longrightarrow> (\<exists>tr. trace e' = trace e @ tr \<and> loop_trace tr)",
     OF _ assms], goal_cases)
  case (1 loop E e r)
  show ?case
  proof (intro allI impI)
    fix e' assume r: "r = Inr e'"
    define e3 where "e3 = turn E e"
    have t3: "trace e3 = trace e @ [UvRun, DrainVMTasksEv, LoopAlive (0 < referenced_work e3)]"
      unfolding e3_def by (rule trace_turn)
    from 1(2) have body:
      "(if 0 < referenced_work e3 then loop E e3
        else case RunBeforeExit E e3 of
               Inl f \<Rightarrow> Some (Inl f)
             | Inr e4 \<Rightarrow>
                 if 0 < referenced_work e4 then loop E (snd (uv_loop_alive e4))
                 else Some (Inr (snd (uv_loop_alive e4)))) = Some r"
      unfolding e3_def loop_body_eq[symmetric] .
    show "\<exists>tr. trace e' = trace e @ tr \<and> loop_trace tr"
    proof (cases "0 < referenced_work e3")
      case True
      with body have "loop E e3 = Some r" by simp
      from 1(1)[OF this] r obtain tr where "trace e' = trace e3 @ tr" "loop_trace tr" by blast
      with t3 True show ?thesis
        by (auto intro!: exI[of _ "[UvRun, DrainVMTasksEv, LoopAlive True] @ tr"] loop_trace.wake[simplified])
    next
      case False
      with body r obtain e4 where rb: "RunBeforeExit E e3 = Inr e4"
        and rest: "(if 0 < referenced_work e4 then loop E (snd (uv_loop_alive e4))
                 else Some (Inr (snd (uv_loop_alive e4)))) = Some r"
        by (auto split: sum.splits)
      from RunBeforeExit_trace[OF rb] obtain alive evs where
        t4: "trace e4 = trace e3 @ before_exit_pass alive evs" and cb: "list_all is_callback_event evs"
        by blast
      define e5 where "e5 = snd (uv_loop_alive e4)"
      have t5: "trace e5 = trace e4 @ [LoopAlive (0 < referenced_work e4)]"
        by (simp add: e5_def uv_loop_alive_def log_def)
      show ?thesis
      proof (cases "0 < referenced_work e4")
        case True
        with rest have "loop E e5 = Some r" by (simp add: e5_def)
        from 1(1)[OF this] r obtain tr where "trace e' = trace e5 @ tr" "loop_trace tr" by blast
        with t3 t4 t5 True \<open>\<not> 0 < referenced_work e3\<close> cb show ?thesis
          by (auto intro!: exI[of _ "[UvRun, DrainVMTasksEv, LoopAlive False] @ before_exit_pass alive evs
                      @ [LoopAlive True] @ tr"] loop_trace.rearm[simplified])
      next
        case False
        with rest r have "e' = e5" by (simp add: e5_def)
        with t3 t4 t5 False \<open>\<not> 0 < referenced_work e3\<close> cb show ?thesis
          by (auto intro!: exI[of _ "[UvRun, DrainVMTasksEv, LoopAlive False] @ before_exit_pass alive evs
                      @ [LoopAlive False]"] loop_trace.last[simplified])
      qed
    qed
  qed
qed

lemma callback_events_not_lifecycle:
  assumes "list_all is_callback_event evs"
  shows "EmitExitEv \<notin> set evs" "EmitBeforeExitEv \<notin> set evs" "UvRun \<notin> set evs"
    "BeforeExitCallbacks \<notin> set evs" "SetCanCallIntoJs b \<notin> set evs"
  using assms by (auto simp: list_all_iff)






lemma loop_trace_starts: "loop_trace tr \<Longrightarrow> \<exists>rest. tr = UvRun # rest"
  by (induction rule: loop_trace.induct) auto

lemma is_callback_is_exit: "list_all is_callback_event evs \<Longrightarrow> list_all is_exit_event evs"
proof (induction evs)
  case Nil
  then show ?case by simp
next
  case (Cons x xs)
  then show ?case by (cases x) auto
qed

lemma EmitExit_trace:
  assumes "EmitExit E e = Inr (code, e')"
  shows "\<exists>post. trace e' = trace e @ [EmitExitEv] @ post \<and> list_all is_exit_event post"
proof -
  define e1 where "e1 = snd (Set_property ProcessObject ''_exiting'' (Bool True) (log EmitExitEv e))"
  from EmitExit_unfold[OF assms] obtain c0 ret where
    mc: "MakeCallback_method E (Some ProcessObject) ''emit'' [Str ''exit'', Integer_New c0]
             \<lparr>async_id = 0, trigger_async_id = 0\<rparr> e1 = Inr (Some ret, e')"
    by (auto simp: e1_def)
  have t: "trace e1 = trace e @ [EmitExitEv, SetProperty ProcessObject ''_exiting'' (Bool True)]"
    by (simp_all add: e1_def Set_property_def log_def)
  from trace_MakeCallback_method[OF mc] obtain evs where
    "trace e' = trace e1 @ evs" "list_all is_callback_event evs"
    by auto
  with t show ?thesis
    by (auto dest: is_callback_is_exit)
qed

lemma Start_exit_trace:
  assumes "Start_exit E e = Inr (code, e')"
  shows "\<exists>mid. trace e' = trace e @ [SetTraceSyncIo False, EmitExitEv] @ mid @ teardown_events \<and>
           list_all is_exit_event mid \<and>
           (\<exists>e1 e2. e1 = set_trace_sync_io False e \<and> EmitExit E e1 = Inr (code, e2))"
proof -
  define e1 where "e1 = set_trace_sync_io False e"
  have t1: "trace e1 = trace e @ [SetTraceSyncIo False]"
    by (simp add: e1_def set_trace_sync_io_def log_def)
  from assms obtain e2 where ex: "EmitExit E e1 = Inr (code, e2)"
    and e': "e' = CancelVMTasks E (DrainVMTasks E (RunAtExit E
                (external RunCleanupEv (ext_RunCleanup E)
                  (log UvTtyResetMode
                    (external StopSubWorkerContexts (ext_stop_sub_worker_contexts E)
                      (set_can_call_into_js False (WaitForInspectorDisconnect E e2)))))))"
    by (auto simp: Start_exit_def Let_def e1_def and_then_Inr_iff)
  from EmitExit_trace[OF ex] obtain post where
    t2: "trace e2 = trace e1 @ [EmitExitEv] @ post" and p: "list_all is_exit_event post"
    by blast
  have "\<exists>w. trace (WaitForInspectorDisconnect E e2) = trace e2 @ w \<and> list_all is_exit_event w"
    by (auto simp: WaitForInspectorDisconnect_def external_def)
  then obtain w where t3: "trace (WaitForInspectorDisconnect E e2) = trace e2 @ w"
    and w: "list_all is_exit_event w" by blast
  have "trace e' = trace (WaitForInspectorDisconnect E e2) @ teardown_events"
    by (simp add: e' teardown_events_def CancelVMTasks_def DrainVMTasks_def RunAtExit_def
        external_def log_def set_can_call_into_js_def)
  with t1 t2 t3 p w ex show ?thesis
    by (auto simp: e1_def intro!: exI[of _ "post @ w"])
qed


lemma new_events_append: "trace e' = trace e @ evs \<Longrightarrow> new_events e e' = evs"
  by (simp add: new_events_def)





lemma trace_after_turns:
  "idle_after E e n \<Longrightarrow>
   referenced_work (after_turns E e n) = 0 \<and>
   (\<exists>tr. trace (after_turns E e n) = trace e @ tr \<and> count_list tr UvRun = Suc n \<and>
         count_list tr BeforeExitCallbacks = 0)"
proof (induction n arbitrary: e)
  case 0
  then show ?case using trace_turn[of E e] by simp
next
  case (Suc n)
  then have "idle_after E (turn E e) n" by simp
  from Suc.IH[OF this] obtain tr where
    "referenced_work (after_turns E (turn E e) n) = 0"
    "trace (after_turns E (turn E e) n) = trace (turn E e) @ tr"
    "count_list tr UvRun = Suc n" "count_list tr BeforeExitCallbacks = 0"
    by blast
  then show ?case using trace_turn[of E e] by simp
qed

lemma Start_loop_when_idle:
  "idle_after E e n \<Longrightarrow>
   Start_loop E e =
     (case RunBeforeExit E (after_turns E e n) of
        Inl f \<Rightarrow> Some (Inl f)
      | Inr e4 \<Rightarrow>
          if 0 < referenced_work e4 then Start_loop E (snd (uv_loop_alive e4))
          else Some (Inr (snd (uv_loop_alive e4))))"
proof (induction n arbitrary: e)
  case 0
  then show ?case by (subst Start_loop_unfold) simp
next
  case (Suc n)
  then have a: "0 < referenced_work (turn E e)" and i: "idle_after E (turn E e) n" by simp_all
  from a have "Start_loop E e = Start_loop E (turn E e)" by (subst Start_loop_unfold) simp
  with Suc.IH[OF i] show ?case by simp
qed

lemma count_before_exit_pass:
  "list_all is_callback_event evs \<Longrightarrow>
   count_list (before_exit_pass alive evs) BeforeExitCallbacks = 1 \<and>
   count_list (before_exit_pass alive evs) UvRun = 0"
  by (auto simp: before_exit_pass_def count_list_0_iff callback_events_not_lifecycle)

lemma trace_snd_uv_loop_alive:
  "trace (snd (uv_loop_alive e)) = trace e @ [LoopAlive (0 < referenced_work e)]"
  by (simp add: uv_loop_alive_def log_def)

lemma Start_loop_returns_idle:
  assumes "Start_loop E e = Some r"
  shows "\<exists>n. idle_after E e n"
proof (rule Start_loop.raw_induct [where P = "\<lambda>E e r. \<exists>n. idle_after E e n", OF _ assms],
    goal_cases)
  case (1 loop E e r)
  show ?case
  proof (cases "0 < referenced_work (turn E e)")
    case True
    with 1(2) have "loop E (turn E e) = Some r"
      unfolding loop_body_eq by simp
    from 1(1)[OF this] obtain n where "idle_after E (turn E e) n" ..
    with True have "idle_after E e (Suc n)" by simp
    then show ?thesis ..
  next
    case False
    then have "idle_after E e 0" by simp
    then show ?thesis ..
  qed
qed

lemma TickCallback_engine0: "TickCallback engine0 e = (False, log (TickCallbackEv False) e)"
  by (simp add: TickCallback_def engine0_def log_def)

lemma Call_engine0: "Call engine0 f recv argv e = (Some Undefined, log (FunctionCall f recv argv) e)"
  by (simp add: Call_def engine0_def log_def)

lemma referenced_work_pop_async_id:
  "pop_async_id a e = Inr e' \<Longrightarrow> referenced_work e' = referenced_work e"
  by (cases "async_id_stack e") (auto simp: pop_async_id_def log_def split: if_splits)

lemma referenced_work_Close_engine0:
  "Close (TickCallback engine0) e s = Inr (e', s') \<Longrightarrow> referenced_work e' = referenced_work e"
  by (auto simp: Close_def Let_def and_then_Inr_iff TickCallback_engine0 log_def
      split: if_splits dest!: referenced_work_pop_async_id)

lemma referenced_work_destroy_engine0:
  "InternalCallbackScope_destroy (TickCallback engine0) e s = Inr e' \<Longrightarrow>
   referenced_work e' = referenced_work e"
  by (auto simp: InternalCallbackScope_destroy_def and_then_Inr_iff AsyncCallbackScope_exit_def
      log_def dest!: referenced_work_Close_engine0)

lemma referenced_work_Call_engine0:
  "Call engine0 f recv argv e = (ret, e') \<Longrightarrow> referenced_work e' = referenced_work e"
  by (auto simp: Call_engine0 log_def)

lemma referenced_work_InternalMakeCallback_engine0:
  assumes "InternalMakeCallback engine0 recv callback argv ctx e = Inr (ret, e')"
  shows "referenced_work e' = referenced_work e"
proof -
  define e1 where "e1 = push_async_ids (async_id ctx) (trigger_async_id ctx) (AsyncCallbackScope_enter e)"
  define sc where "sc = \<lparr>scope_async_context = ctx, object = recv,
                    failed = False, pushed_ids = True, closed = False\<rparr>"
  have r1: "referenced_work e1 = referenced_work e"
    by (simp add: e1_def push_async_ids_def AsyncCallbackScope_enter_def log_def)
  have nf: "\<not> failed sc" by (simp add: sc_def)
  from assms nf have "referenced_work e' = referenced_work e1"
    by (auto simp: InternalMakeCallback_def InternalCallbackScope_def Failed_def Let_def
        e1_def[symmetric] sc_def[symmetric] and_then_Inr_iff
        split: if_splits option.splits prod.splits
        dest!: referenced_work_destroy_engine0 referenced_work_Close_engine0
               referenced_work_Call_engine0)
  with r1 show ?thesis by simp
qed

lemma referenced_work_MakeCallback_method_engine0:
  assumes "MakeCallback_method engine0 recv m argv ctx e = Inr (ret, e')"
  shows "referenced_work e' = referenced_work e"
  using assms
  by (auto simp: MakeCallback_method_def MakeCallback_symbol_def MakeCallback_function_def
      and_then_Inr_iff ToLocalChecked_def split: option.splits val.splits if_splits
      dest!: referenced_work_InternalMakeCallback_engine0)

lemma quiet_hooks_engine0: "quiet_hooks engine0"
  unfolding quiet_hooks_def
proof (intro allI impI)
  fix e e' assume h: "referenced_work e = 0 \<and> RunBeforeExit engine0 e = Inr e'"
  define e2 where "e2 = snd (uv_loop_alive (external BeforeExitCallbacks (ext_RunBeforeExitCallbacks engine0) e))"
  have r2: "referenced_work e2 = referenced_work e"
    by (simp add: e2_def uv_loop_alive_def external_def log_def engine0_def)
  from h have "e' = e2 \<or> EmitBeforeExit engine0 e2 = Inr e'"
    by (auto simp: RunBeforeExit_def Let_def e2_def case_prod_beta split: if_splits)
  then have "referenced_work e' = referenced_work e2"
    by (auto simp: EmitBeforeExit_def Let_def and_then_Inr_iff log_def
        dest!: referenced_work_MakeCallback_method_engine0)
  with r2 h show "referenced_work e' = 0" by simp
qed

subsection \<open>The states of a run of \<open>Start\<close>\<close>

lemma Start_isolate_states:
  assumes "Start_isolate E args exec_args e = Some (Inr (code, ef))"
  shows "\<exists>e0.
           StartInspector E (if length args > 1 then Some (args ! 1) else None)
             (external EnvironmentStart (ext_Environment_Start E args exec_args) e) = Inr e0 \<and>
           ((inspector_enabled e0 \<and> \<not> InspectorStarted E e0 \<and> code = 12 \<and> ef = e0) \<or>
            (\<exists>e3 e4. Start_bootstrap E e0 = Inr e3 \<and> Start_loop E e3 = Some (Inr e4) \<and>
                Start_exit E e4 = Inr (code, ef)))"
  using assms
  by (auto simp: Start_isolate_def Let_def split: if_splits sum.splits option.splits)

lemma trace_StartInspector:
  assumes "StartInspector E path (external EnvironmentStart f e) = Inr e0"
  shows "\<exists>pre. trace e0 = trace e @ pre \<and> (pre = [EnvironmentStart] \<or> pre = [EnvironmentStart, StartInspectorEv])"
  using assms
  by (auto simp: StartInspector_def external_def split: if_splits)

lemma Start_exit_states:
  assumes "Start_exit E e = Inr (code, e')"
  shows "\<exists>e2. EmitExit E (set_trace_sync_io False e) = Inr (code, e2) \<and>
           e' = CancelVMTasks E (DrainVMTasks E (RunAtExit E
                  (external RunCleanupEv (ext_RunCleanup E)
                    (log UvTtyResetMode
                      (external StopSubWorkerContexts (ext_stop_sub_worker_contexts E)
                        (set_can_call_into_js False (WaitForInspectorDisconnect E e2)))))))"
  using assms by (auto simp: Start_exit_def Let_def and_then_Inr_iff)

lemma ExecuteBootstrapper_stack:
  "ExecuteBootstrapper E ident ps as e = (ret, e') \<Longrightarrow>
   trace e' = trace e @ CompileAndCallEv ident (ret \<noteq> None) # (if ret = None then [ClearAsyncIdStack] else []) \<and>
   (ret = None \<longrightarrow> async_id_stack e' = []) \<and>
   (bootstrap_keeps_stack E \<and> ret \<noteq> None \<longrightarrow> async_id_stack e' = async_id_stack e)"
  by (auto simp: ExecuteBootstrapper_def CompileAndCall_def clear_async_id_stack_def log_def
      bootstrap_keeps_stack_def split: prod.splits if_splits) (metis snd_conv)+

lemma LoadEnvironment_stack:
  "\<exists>e' boot. LoadEnvironment E e = Inr e' \<and> trace e' = trace e @ boot \<and>
      list_all is_bootstrap_event boot \<and>
      ((\<exists>ident. CompileAndCallEv ident False \<in> set boot) \<longrightarrow> async_id_stack e' = []) \<and>
      (bootstrap_keeps_stack E \<and> (\<forall>ident. CompileAndCallEv ident False \<notin> set boot) \<longrightarrow>
         async_id_stack e' = async_id_stack e)"
proof -
  define e2 where "e2 = snd (Set_property ProcessObject ''_rawDebug'' (Function (Native ''RawDebug''))
     (snd (Set_property GlobalObject ''global'' (Object GlobalObject) e)))"
  have t2: "trace e2 = trace e @ [SetProperty GlobalObject ''global'' (Object GlobalObject),
      SetProperty ProcessObject ''_rawDebug'' (Function (Native ''RawDebug''))]"
    and s2: "async_id_stack e2 = async_id_stack e"
    by (simp_all add: e2_def Set_property_def log_def)
  obtain r3 e3 where x3: "ExecuteBootstrapper E ''internal/bootstrap/loaders''
      [process_string, ''getBinding'', ''getLinkedBinding'', ''getInternalBinding'', ''debugBreak'']
      [Object ProcessObject, Function (Native ''GetBinding''), Function (Native ''GetLinkedBinding''),
       Function (Native ''GetInternalBinding''), Bool (break_node_first_line e2)] e2 = (r3, e3)"
    by (cases "ExecuteBootstrapper E ''internal/bootstrap/loaders''
      [process_string, ''getBinding'', ''getLinkedBinding'', ''getInternalBinding'', ''debugBreak'']
      [Object ProcessObject, Function (Native ''GetBinding''), Function (Native ''GetLinkedBinding''),
       Function (Native ''GetInternalBinding''), Bool (break_node_first_line e2)] e2")
  note b3 = ExecuteBootstrapper_stack[OF x3]
  show ?thesis
  proof (cases r3)
    case None
    with x3 have "LoadEnvironment E e = Inr e3"
      by (simp add: LoadEnvironment_def Let_def Set_property_def FromJust_def ToChecked_def
          e2_def split: prod.splits)
    with b3 None t2 show ?thesis by auto
  next
    case (Some exports)
    define e5 where "e5 = external (SetupBootstrapObjectEv (Obj (next_obj e3)))
        (ext_SetupBootstrapObject E (Obj (next_obj e3))) (e3\<lparr>next_obj := next_obj e3 + 1\<rparr>)"
    have t5: "trace e5 = trace e3 @ [SetupBootstrapObjectEv (Obj (next_obj e3))]"
      and s5: "bootstrap_keeps_stack E \<Longrightarrow> async_id_stack e5 = async_id_stack e3"
      by (simp_all add: e5_def external_def bootstrap_keeps_stack_def)
    obtain r6 e6 where x6: "ExecuteBootstrapper E ''internal/bootstrap/node''
        [process_string, ''bootstrappers'', ''loaderExports'', ''triggerFatalException'', ''isMainThread'']
        [Object ProcessObject, Object (Obj (next_obj e3)), exports, Function (Native ''FatalException''),
         Bool (is_main_thread e5)] e5 = (r6, e6)"
      by (cases "ExecuteBootstrapper E ''internal/bootstrap/node''
        [process_string, ''bootstrappers'', ''loaderExports'', ''triggerFatalException'', ''isMainThread'']
        [Object ProcessObject, Object (Obj (next_obj e3)), exports, Function (Native ''FatalException''),
         Bool (is_main_thread e5)] e5")
    note b6 = ExecuteBootstrapper_stack[OF x6]
    from x3 x6 Some have "LoadEnvironment E e = Inr e6"
      by (simp add: LoadEnvironment_def Let_def Set_property_def FromJust_def ToChecked_def
          e2_def e5_def Object_New_def split: prod.splits)
    with b3 b6 Some t2 s2 t5 s5 show ?thesis by (cases r6) auto
  qed
qed

lemma Start_bootstrap_states:
  assumes "Start_bootstrap E e0 = Inr eb"
  shows "\<exists>e3 boot.
           LoadEnvironment E (push_async_ids 1 0 (AsyncCallbackScope_enter e0)) = Inr e3 \<and>
           trace e3 = trace e0 @ [AsyncCallbackScopeEnter, PushAsyncIds 1 0] @ boot \<and>
           list_all is_bootstrap_event boot \<and>
           trace eb = trace e3 @ (if async_id_stack e3 = [] then [] else [PopAsyncId 1])
                      @ [AsyncCallbackScopeExit] \<and>
           async_id_stack eb = tl (async_id_stack e3) \<and>
           ((\<exists>ident. CompileAndCallEv ident False \<in> set boot) \<longrightarrow> async_id_stack e3 = []) \<and>
           (bootstrap_keeps_stack E \<and> (\<forall>ident. CompileAndCallEv ident False \<notin> set boot) \<longrightarrow>
              async_id_stack e3 = (1, 0) # async_id_stack e0)"
proof -
  define e2 where "e2 = push_async_ids 1 0 (AsyncCallbackScope_enter e0)"
  have t2: "trace e2 = trace e0 @ [AsyncCallbackScopeEnter, PushAsyncIds 1 0]"
    and s2: "async_id_stack e2 = (1, 0) # async_id_stack e0"
    by (simp_all add: e2_def push_async_ids_def AsyncCallbackScope_enter_def log_def)
  from LoadEnvironment_stack[of E e2] obtain e3 boot where
    l: "LoadEnvironment E e2 = Inr e3" and t3: "trace e3 = trace e2 @ boot"
    and b: "list_all is_bootstrap_event boot"
    and f: "(\<exists>ident. CompileAndCallEv ident False \<in> set boot) \<longrightarrow> async_id_stack e3 = []"
    and k: "bootstrap_keeps_stack E \<and> (\<forall>ident. CompileAndCallEv ident False \<notin> set boot) \<longrightarrow>
         async_id_stack e3 = async_id_stack e2"
    by blast
  from assms l obtain e4 where p: "pop_async_id 1 e3 = Inr e4"
    and x: "eb = AsyncCallbackScope_exit e4"
    by (auto simp: Start_bootstrap_def Let_def e2_def[symmetric] and_then_Inr_iff)
  from p have "trace e4 = trace e3 @ (if async_id_stack e3 = [] then [] else [PopAsyncId 1])"
    and "async_id_stack e4 = tl (async_id_stack e3)"
    by (auto simp: pop_async_id_def log_def split: list.splits if_splits)
  with x have "trace eb = trace e3 @ (if async_id_stack e3 = [] then [] else [PopAsyncId 1])
                      @ [AsyncCallbackScopeExit]"
    and "async_id_stack eb = tl (async_id_stack e3)"
    by (simp_all add: AsyncCallbackScope_exit_def log_def)
  with l t2 s2 t3 b f k show ?thesis unfolding e2_def[symmetric] by auto
qed













subsection \<open>Balance of nested callback scopes\<close>

lemma pushes_append: "pushes (xs @ ys) = pushes xs + pushes ys"
  by (induction xs rule: pushes.induct) auto

lemma pops_append: "pops (xs @ ys) = pops xs + pops ys"
  by (induction xs rule: pops.induct) auto

lemma replay_append:
  "replay (xs @ ys) st = (case replay xs st of None \<Rightarrow> None | Some st' \<Rightarrow> replay ys st')"
  by (induction xs st rule: replay.induct) (auto split: list.splits)

lemma ctor_inv:
  assumes "expect = kAllowEmptyResource \<or> ob \<noteq> None"
  shows "\<exists>e1 s. InternalCallbackScope e ob ctx expect = Inr (e1, s) \<and>
           scope_inv (async_id_stack e) e1 s \<and> \<not> closed s \<and>
           makecallback_depth e1 = makecallback_depth e + 1 \<and>
           trace e1 = trace e @ [AsyncCallbackScopeEnter, PushAsyncIds (async_id ctx) (trigger_async_id ctx)]"
  using assms
  by (auto simp: InternalCallbackScope_def Let_def scope_inv_def push_async_ids_def
      AsyncCallbackScope_enter_def log_def)

lemma Close_inv:
  assumes "scope_inv base e s"
  shows "\<exists>e' s' tr. Close (flush_outcome threw) e s = Inr (e', s') \<and>
           scope_inv base e' s' \<and> closed s' \<and>
           makecallback_depth e' = makecallback_depth e \<and>
           trace e' = trace e @ tr \<and> pushes tr = 0 \<and>
           pops tr = (if closed s then 0 else 1) \<and>
           replay tr (async_id_stack e) = Some (async_id_stack e')"
  using assms
  by (auto simp: Close_def Let_def scope_inv_def pop_async_id_def flush_outcome_def log_def)


lemma destroy_inv:
  assumes "scope_inv base e s"
  shows "\<exists>e' tr. InternalCallbackScope_destroy (flush_outcome threw) e s = Inr e' \<and>
           async_id_stack e' = base \<and>
           makecallback_depth e' = makecallback_depth e - 1 \<and>
           trace e' = trace e @ tr \<and> pushes tr = 0 \<and>
           pops tr = (if closed s then 0 else 1) \<and>
           replay tr (async_id_stack e) = Some base"
proof -
  from Close_inv[OF assms, of threw] obtain e1 s1 tr where
    c: "Close (flush_outcome threw) e s = Inr (e1, s1)"
    and i: "scope_inv base e1 s1" "closed s1"
    and d: "makecallback_depth e1 = makecallback_depth e"
    and t: "trace e1 = trace e @ tr" "pushes tr = 0" "pops tr = (if closed s then 0 else 1)"
    and r: "replay tr (async_id_stack e) = Some (async_id_stack e1)"
    by blast
  from i have b: "async_id_stack e1 = base" by (simp add: scope_inv_def)
  have "InternalCallbackScope_destroy (flush_outcome threw) e s = Inr (AsyncCallbackScope_exit e1)"
    by (simp add: InternalCallbackScope_destroy_def c)
  moreover have "trace (AsyncCallbackScope_exit e1) = trace e @ (tr @ [AsyncCallbackScopeExit])"
    by (simp add: AsyncCallbackScope_exit_def log_def t)
  moreover have "replay (tr @ [AsyncCallbackScopeExit]) (async_id_stack e) = Some base"
    by (simp add: replay_append r b)
  ultimately show ?thesis using b d t
    by (intro exI[of _ "AsyncCallbackScope_exit e1"] exI[of _ "tr @ [AsyncCallbackScopeExit]"])
       (simp add: AsyncCallbackScope_exit_def log_def pushes_append pops_append)
qed



lemma scopes_balanced:
  shows "resources_ok_use u \<Longrightarrow> use_balanced u e"
    and "resources_ok_op x \<Longrightarrow> op_balanced x e1 s1"
    and "resources_ok_ops xs \<Longrightarrow> ops_balanced xs e2 s2"
proof (induction u e and x e1 s1 and xs e2 s2 rule: run_use_run_op_run_ops.induct)
  case (1 ctx ob expect body threw e)
  from "1.prems" have ok: "expect = kAllowEmptyResource \<or> ob \<noteq> None"
    and okb: "resources_ok_ops body" by simp_all
  from ctor_inv[OF ok, of e ctx] obtain e1 s where
    c: "InternalCallbackScope e ob ctx expect = Inr (e1, s)"
    and i1: "scope_inv (async_id_stack e) e1 s" and o: "\<not> closed s"
    and d1: "makecallback_depth e1 = makecallback_depth e + 1"
    and t1: "trace e1 = trace e @ [AsyncCallbackScopeEnter, PushAsyncIds (async_id ctx) (trigger_async_id ctx)]"
    by blast
  from i1 o have st1: "async_id_stack e1 = (async_id (scope_async_context s), trigger_async_id (scope_async_context s)) # async_id_stack e"
    by (simp add: scope_inv_def)
  from c have cx: "scope_async_context s = ctx"
    by (auto simp: InternalCallbackScope_def Let_def split: if_splits)
  from "1.IH"[OF c refl okb] have "ops_balanced body e1 s" .
  with i1 obtain e2 s2 tr2 where
    r: "run_ops body e1 s = Inr (e2, s2)" and i2: "scope_inv (async_id_stack e) e2 s2"
    and d2: "makecallback_depth e2 = makecallback_depth e1"
    and t2: "trace e2 = trace e1 @ tr2" and pu2: "pushes tr2 = scopes_ops body"
    and po2: "pops tr2 = scopes_ops body + (if closed s2 \<and> \<not> closed s then 1 else 0)"
    and rp2: "replay tr2 (async_id_stack e1) = Some (async_id_stack e2)"
    unfolding ops_balanced_def by blast
  from destroy_inv[OF i2, of threw] obtain e3 tr3 where
    x: "InternalCallbackScope_destroy (flush_outcome threw) e2 s2 = Inr e3"
    and st3: "async_id_stack e3 = async_id_stack e"
    and d3: "makecallback_depth e3 = makecallback_depth e2 - 1"
    and t3: "trace e3 = trace e2 @ tr3" and pu3: "pushes tr3 = 0"
    and po3: "pops tr3 = (if closed s2 then 0 else 1)"
    and rp3: "replay tr3 (async_id_stack e2) = Some (async_id_stack e)"
    by blast
  let ?tr = "[AsyncCallbackScopeEnter, PushAsyncIds (async_id ctx) (trigger_async_id ctx)] @ tr2 @ tr3"
  have run: "run_use (ScopeUse ctx ob expect body threw) e = Inr e3"
    by (simp add: c r x)
  have tr: "trace e3 = trace e @ ?tr" by (simp add: t1 t2 t3)
  have pu: "pushes ?tr = scopes_use (ScopeUse ctx ob expect body threw)"
    by (simp add: pushes_append pu2 pu3)
  have po: "pops ?tr = scopes_use (ScopeUse ctx ob expect body threw)"
    using o by (simp add: pops_append po2 po3)
  have rp: "replay ?tr (async_id_stack e) = Some (async_id_stack e)"
    using rp2 rp3 st1 cx by (simp add: replay_append)
  from run st3 d1 d2 d3 tr pu po rp show ?case
    unfolding use_balanced_def by (intro exI[of _ e3] exI[of _ ?tr]) simp
next
  case (2 e s)
  show ?case
    unfolding op_balanced_def
  proof (intro allI impI)
    fix base assume "scope_inv base e s"
    then have "scope_inv base e (MarkAsFailed s)" "closed (MarkAsFailed s) = closed s"
      by (simp_all add: MarkAsFailed_def scope_inv_def)
    then show "\<exists>e' s' tr. run_op OpMarkAsFailed e s = Inr (e', s') \<and>
           scope_inv base e' s' \<and> (closed s \<longrightarrow> closed s') \<and>
           makecallback_depth e' = makecallback_depth e \<and>
           trace e' = trace e @ tr \<and>
           pushes tr = scopes_op OpMarkAsFailed \<and>
           pops tr = scopes_op OpMarkAsFailed + (if closed s' \<and> \<not> closed s then 1 else 0) \<and>
           replay tr (async_id_stack e) = Some (async_id_stack e')"
      by (intro exI[of _ e] exI[of _ "MarkAsFailed s"] exI[of _ "[]"]) simp
  qed
next
  case (3 threw e s)
  show ?case
    unfolding op_balanced_def
  proof (intro allI impI)
    fix base assume "scope_inv base e s"
    from Close_inv[OF this, of threw] obtain e1 s1 tr1 where
      "Close (flush_outcome threw) e s = Inr (e1, s1)"
      "scope_inv base e1 s1" "closed s1"
      "makecallback_depth e1 = makecallback_depth e"
      "trace e1 = trace e @ tr1" "pushes tr1 = 0"
      "pops tr1 = (if closed s then 0 else 1)"
      "replay tr1 (async_id_stack e) = Some (async_id_stack e1)"
      by blast
    then show "\<exists>e' s' tr. run_op (OpClose threw) e s = Inr (e', s') \<and>
           scope_inv base e' s' \<and> (closed s \<longrightarrow> closed s') \<and>
           makecallback_depth e' = makecallback_depth e \<and>
           trace e' = trace e @ tr \<and>
           pushes tr = scopes_op (OpClose threw) \<and>
           pops tr = scopes_op (OpClose threw) + (if closed s' \<and> \<not> closed s then 1 else 0) \<and>
           replay tr (async_id_stack e) = Some (async_id_stack e')"
      by (intro exI[of _ e1] exI[of _ s1] exI[of _ tr1]) simp
  qed
next
  case (4 u e s)
  then have "use_balanced u e" by simp
  then obtain e' tr where r: "run_use u e = Inr e'"
    and st: "async_id_stack e' = async_id_stack e"
    and d: "makecallback_depth e' = makecallback_depth e"
    and t: "trace e' = trace e @ tr" "pushes tr = scopes_use u" "pops tr = scopes_use u"
    and rp: "replay tr (async_id_stack e) = Some (async_id_stack e)"
    unfolding use_balanced_def by blast
  show ?case
    unfolding op_balanced_def
  proof (intro allI impI)
    fix base assume "scope_inv base e s"
    with st have "scope_inv base e' s" by (simp add: scope_inv_def)
    with r st d t rp show "\<exists>e' s' tr. run_op (OpNested u) e s = Inr (e', s') \<and>
           scope_inv base e' s' \<and> (closed s \<longrightarrow> closed s') \<and>
           makecallback_depth e' = makecallback_depth e \<and>
           trace e' = trace e @ tr \<and>
           pushes tr = scopes_op (OpNested u) \<and>
           pops tr = scopes_op (OpNested u) + (if closed s' \<and> \<not> closed s then 1 else 0) \<and>
           replay tr (async_id_stack e) = Some (async_id_stack e')"
      by (intro exI[of _ e'] exI[of _ s] exI[of _ tr]) simp
  qed
next
  case (5 e s)
  show ?case
    unfolding ops_balanced_def
  proof (intro allI impI)
    fix base assume "scope_inv base e s"
    then show "\<exists>e' s' tr. run_ops [] e s = Inr (e', s') \<and>
           scope_inv base e' s' \<and> (closed s \<longrightarrow> closed s') \<and>
           makecallback_depth e' = makecallback_depth e \<and>
           trace e' = trace e @ tr \<and>
           pushes tr = scopes_ops [] \<and>
           pops tr = scopes_ops [] + (if closed s' \<and> \<not> closed s then 1 else 0) \<and>
           replay tr (async_id_stack e) = Some (async_id_stack e')"
      by (intro exI[of _ e] exI[of _ s] exI[of _ "[]"]) simp
  qed
next
  case (6 x xs e s)
  from "6.prems" have okx: "resources_ok_op x" and okxs: "resources_ok_ops xs" by simp_all
  from "6.IH"(1)[OF okx] have bx: "op_balanced x e s" .
  show ?case
    unfolding ops_balanced_def
  proof (intro allI impI)
    fix base assume inv: "scope_inv base e s"
    with bx obtain e1 s1 tr1 where
      r1: "run_op x e s = Inr (e1, s1)" and i1: "scope_inv base e1 s1"
      and c1: "closed s \<longrightarrow> closed s1"
      and d1: "makecallback_depth e1 = makecallback_depth e"
      and t1: "trace e1 = trace e @ tr1" and pu1: "pushes tr1 = scopes_op x"
      and po1: "pops tr1 = scopes_op x + (if closed s1 \<and> \<not> closed s then 1 else 0)"
      and rp1: "replay tr1 (async_id_stack e) = Some (async_id_stack e1)"
      unfolding op_balanced_def by blast
    from "6.IH"(2)[OF r1 refl okxs] have "ops_balanced xs e1 s1" .
    with i1 obtain e2 s2 tr2 where
      r2: "run_ops xs e1 s1 = Inr (e2, s2)" and i2: "scope_inv base e2 s2"
      and c2: "closed s1 \<longrightarrow> closed s2"
      and d2: "makecallback_depth e2 = makecallback_depth e1"
      and t2: "trace e2 = trace e1 @ tr2" and pu2: "pushes tr2 = scopes_ops xs"
      and po2: "pops tr2 = scopes_ops xs + (if closed s2 \<and> \<not> closed s1 then 1 else 0)"
      and rp2: "replay tr2 (async_id_stack e1) = Some (async_id_stack e2)"
      unfolding ops_balanced_def by blast
    have run: "run_ops (x # xs) e s = Inr (e2, s2)" by (simp add: r1 r2)
    have tr: "trace e2 = trace e @ (tr1 @ tr2)" by (simp add: t1 t2)
    have pu: "pushes (tr1 @ tr2) = scopes_ops (x # xs)" by (simp add: pushes_append pu1 pu2)
    have cl: "closed s \<longrightarrow> closed s2" using c1 c2 by blast
    have "(if closed s1 \<and> \<not> closed s then 1 else 0) + (if closed s2 \<and> \<not> closed s1 then 1 else 0)
          = (if closed s2 \<and> \<not> closed s then 1 else (0::nat))"
      using c1 c2 by (cases "closed s"; cases "closed s1"; cases "closed s2") simp_all
    then have po: "pops (tr1 @ tr2) = scopes_ops (x # xs) + (if closed s2 \<and> \<not> closed s then 1 else 0)"
      by (simp only: pops_append po1 po2 scopes_ops.simps)
    have rp: "replay (tr1 @ tr2) (async_id_stack e) = Some (async_id_stack e2)"
      by (simp add: replay_append rp1 rp2)
    have dp: "makecallback_depth e2 = makecallback_depth e" by (simp add: d1 d2)
    show "\<exists>e' s' tr. run_ops (x # xs) e s = Inr (e', s') \<and>
           scope_inv base e' s' \<and> (closed s \<longrightarrow> closed s') \<and>
           makecallback_depth e' = makecallback_depth e \<and>
           trace e' = trace e @ tr \<and>
           pushes tr = scopes_ops (x # xs) \<and>
           pops tr = scopes_ops (x # xs) + (if closed s' \<and> \<not> closed s then 1 else 0) \<and>
           replay tr (async_id_stack e) = Some (async_id_stack e')"
      using run i2 cl dp tr pu po rp by blast
  qed
qed

text \<open>\<open>InternalMakeCallback\<close> is one such use: with a receiver, and script calls that leave
  the stack as they find it, it returns, on either path, with the stack it was given.\<close>

lemma InternalMakeCallback_balanced:
  assumes n: "stack_neutral E" and r: "recv \<noteq> None"
  shows "\<exists>ret e'. InternalMakeCallback E recv callback argv ctx e = Inr (ret, e') \<and>
           async_id_stack e' = async_id_stack e"
proof -
  define e1 where "e1 = push_async_ids (async_id ctx) (trigger_async_id ctx) (AsyncCallbackScope_enter e)"
  define sc where "sc = \<lparr>scope_async_context = ctx, object = recv,
                    failed = False, pushed_ids = True, closed = False\<rparr>"
  define f where "f = callee e ctx callback"
  define a where "a = callee_args e ctx callback argv"
  have s1: "async_id_stack e1 = (async_id ctx, trigger_async_id ctx) # async_id_stack e"
    and d1: "domain_callback e1 = domain_callback e"
    by (simp_all add: e1_def push_async_ids_def AsyncCallbackScope_enter_def log_def)
  obtain r0 e2 where c: "Call E f recv a e1 = (r0, e2)" by (cases "Call E f recv a e1")
  from n c have s2: "async_id_stack e2 = async_id_stack e1"
    by (auto simp: Call_def stack_neutral_def split: prod.splits)
       (metis snd_conv)
  have tick: "async_id_stack (snd (TickCallback E x)) = async_id_stack x" for x
    using n by (auto simp: TickCallback_def stack_neutral_def split: prod.splits) (metis snd_conv)
  have fs: "\<not> failed sc" by (simp add: sc_def)
  have imc: "InternalMakeCallback E recv callback argv ctx e =
      (if r0 = None
       then and_then (InternalCallbackScope_destroy (TickCallback E) e2 (MarkAsFailed sc))
              (\<lambda>e3. Inr (None, e3))
       else and_then (Close (TickCallback E) e2 sc)
              (\<lambda>(e3, scope1).
                 and_then (InternalCallbackScope_destroy (TickCallback E) e3 scope1)
                   (\<lambda>e4. if Failed scope1 then Inr (None, e4) else Inr (r0, e4))))"
    using r c fs
    by (auto simp: InternalMakeCallback_def InternalCallbackScope_def Failed_def Let_def
        e1_def[symmetric] sc_def[symmetric] d1 f_def a_def callee_def callee_args_def
        split: option.splits)
  show ?thesis
  proof (cases "r0 = None")
    case True
    have "\<exists>e3. InternalCallbackScope_destroy (TickCallback E) e2 (MarkAsFailed sc) = Inr e3 \<and>
            async_id_stack e3 = async_id_stack e"
      by (simp add: InternalCallbackScope_destroy_def Close_def MarkAsFailed_def sc_def
          pop_async_id_def s2 s1 log_def AsyncCallbackScope_exit_def)
    with imc True show ?thesis by auto
  next
    case False
    obtain b e3 where t: "TickCallback E (log (PopAsyncId (async_id ctx)) (e2\<lparr>async_id_stack := async_id_stack e\<rparr>)) = (b, e3)"
      by (cases "TickCallback E (log (PopAsyncId (async_id ctx)) (e2\<lparr>async_id_stack := async_id_stack e\<rparr>))")
    from tick[of "log (PopAsyncId (async_id ctx)) (e2\<lparr>async_id_stack := async_id_stack e\<rparr>)"] t
    have s3: "async_id_stack e3 = async_id_stack e" by (simp add: log_def)
    have cl: "Close (TickCallback E) e2 sc = Inr (e3, sc\<lparr>closed := True, failed := b\<rparr>)"
      by (simp add: Close_def sc_def pop_async_id_def s2 s1 t)
    have "InternalCallbackScope_destroy (TickCallback E) e3 (sc\<lparr>closed := True, failed := b\<rparr>)
          = Inr (AsyncCallbackScope_exit e3)"
      by (simp add: InternalCallbackScope_destroy_def Close_def)
    with imc False cl s3 show ?thesis
      by (auto simp: AsyncCallbackScope_exit_def log_def)
  qed
qed

subsection \<open>The life of a thread-pool request\<close>

lemma pool_step_inv:
  assumes "pool_inv c0 w" and "pool_step x w = Inr w'"
  shows "pool_inv c0 w'"
proof (cases x)
  case CallScheduleWork
  with assms show ?thesis
    by (cases "work_req w")
       (auto simp: pool_inv_def ScheduleWork_def Let_def uv_queue_work_def and_then_Inr_iff
          IncreaseWaitingRequestCounter_def history_success_def)
next
  case CallCancelWork
  with assms show ?thesis
    by (cases "work_req w")
       (auto simp: pool_inv_def CancelWork_def uv_cancel_def and_then_Inr_iff
          history_success_def history_cancelled_def)
next
  case WorkerTakesRequest
  with assms show ?thesis
    by (cases "work_req w")
       (auto simp: pool_inv_def work_cb_enter_def history_success_def)
next
  case WorkerFinishes
  with assms show ?thesis
    by (cases "work_req w")
       (auto simp: pool_inv_def work_cb_return_def history_success_def)
next
  case LoopRunsCompletion
  with assms show ?thesis
    by (cases "work_req w")
       (auto simp: pool_inv_def after_work_cb_def DecreaseWaitingRequestCounter_def
          and_then_Inr_iff history_success_def history_cancelled_def split: if_splits)
qed

lemma pool_run_inv:
  "pool_inv c0 w \<Longrightarrow> pool_run xs w = Inr w' \<Longrightarrow> pool_inv c0 w'"
proof (induction xs arbitrary: w)
  case Nil
  then show ?case by simp
next
  case (Cons x xs)
  from Cons.prems(2) obtain w1 where s: "pool_step x w = Inr w1" and r: "pool_run xs w1 = Inr w'"
    by (auto simp: and_then_Inr_iff)
  from pool_step_inv[OF Cons.prems(1) s] have "pool_inv c0 w1" .
  from Cons.IH[OF this r] show ?case .
qed

lemma pool_completes:
  assumes "pool_inv c0 w" and "work_req w \<noteq> NotSubmitted"
  shows "\<exists>w'. pool_run [WorkerTakesRequest, WorkerFinishes, LoopRunsCompletion] w = Inr w' \<and>
           work_req w' = Completed"
  using assms
  by (cases "work_req w")
     (auto simp: pool_inv_def work_cb_enter_def work_cb_return_def after_work_cb_def
        DecreaseWaitingRequestCounter_def)

lemma pool_step_submitted:
  "pool_step x w = Inr w' \<Longrightarrow> work_req w \<noteq> NotSubmitted \<Longrightarrow> work_req w' \<noteq> NotSubmitted"
  by (cases x; cases "work_req w")
     (auto simp: ScheduleWork_def Let_def uv_queue_work_def CancelWork_def uv_cancel_def
        and_then_Inr_iff work_cb_enter_def work_cb_return_def after_work_cb_def)

lemma pool_run_submitted:
  "pool_run xs w = Inr w' \<Longrightarrow> work_req w \<noteq> NotSubmitted \<Longrightarrow> work_req w' \<noteq> NotSubmitted"
proof (induction xs arbitrary: w)
  case Nil
  then show ?case by simp
next
  case (Cons x xs)
  from Cons.prems(1) obtain w1 where s: "pool_step x w = Inr w1" and r: "pool_run xs w1 = Inr w'"
    by (auto simp: and_then_Inr_iff)
  from pool_step_submitted[OF s Cons.prems(2)] Cons.IH[OF r] show ?case by blast
qed

subsection \<open>The claims\<close>

text \<open>
  C6.  Whenever \<open>ExecuteBootstrapper\<close> returns an empty result, the async-id stack has been
  cleared when it returns; on a non-empty result the environment, and so the async-id
  stack, is the one the bootstrap script left: \<open>ExecuteBootstrapper\<close> does not touch it.
\<close>

theorem ExecuteBootstrapper_resets_stack_on_failure:
  "(fst (ExecuteBootstrapper E ident ps as e) = None \<longrightarrow>
      fst (CompileAndCall E ident ps as e) = None \<and>
      async_id_stack (snd (ExecuteBootstrapper E ident ps as e)) = [] \<and>
      trace (snd (ExecuteBootstrapper E ident ps as e)) =
        trace e @ [CompileAndCallEv ident False, ClearAsyncIdStack]) \<and>
   (fst (ExecuteBootstrapper E ident ps as e) \<noteq> None \<longrightarrow>
      ExecuteBootstrapper E ident ps as e = CompileAndCall E ident ps as e \<and>
      async_id_stack (snd (ExecuteBootstrapper E ident ps as e)) =
        async_id_stack (snd (ext_CompileAndCall E ident ps as e)))"
  by (simp add: ExecuteBootstrapper_def CompileAndCall_def clear_async_id_stack_def log_def
      split: prod.splits)


theorem ExecuteBootstrapper_resets_stack_on_failure_witness:
  "fst (ExecuteBootstrapper engine_bootstrap_fails ''internal/bootstrap/loaders'' [] []
          (push_async_ids 1 0 env0)) = None \<and>
   async_id_stack (push_async_ids 1 0 env0) = [(1, 0)] \<and>
   async_id_stack (snd (ExecuteBootstrapper engine_bootstrap_fails
          ''internal/bootstrap/loaders'' [] [] (push_async_ids 1 0 env0))) = [] \<and>
   fst (ExecuteBootstrapper engine0 ''internal/bootstrap/loaders'' [] []
          (push_async_ids 1 0 env0)) = Some Undefined \<and>
   async_id_stack (snd (ExecuteBootstrapper engine0
          ''internal/bootstrap/loaders'' [] [] (push_async_ids 1 0 env0))) = [(1, 0)]"
proof -
  have f: "fst (ExecuteBootstrapper engine_bootstrap_fails ''internal/bootstrap/loaders'' [] []
          (push_async_ids 1 0 env0)) = None"
    by (simp add: eval_defs)
  have s: "fst (ExecuteBootstrapper engine0 ''internal/bootstrap/loaders'' [] []
          (push_async_ids 1 0 env0)) = Some Undefined"
    by (simp add: eval_defs)
  have c: "async_id_stack (snd (ext_CompileAndCall engine0 ''internal/bootstrap/loaders'' [] []
          (push_async_ids 1 0 env0))) = [(1, 0)]"
    by (simp add: eval_defs)
  have p: "async_id_stack (push_async_ids 1 0 env0) = [(1, 0)]"
    by (simp add: eval_defs)
  from s have n: "fst (ExecuteBootstrapper engine0 ''internal/bootstrap/loaders'' [] []
          (push_async_ids 1 0 env0)) \<noteq> None"
    by simp
  from f
    ExecuteBootstrapper_resets_stack_on_failure
      [of engine_bootstrap_fails "''internal/bootstrap/loaders''" "[]" "[]" "push_async_ids 1 0 env0"]
  have a: "async_id_stack (snd (ExecuteBootstrapper engine_bootstrap_fails
          ''internal/bootstrap/loaders'' [] [] (push_async_ids 1 0 env0))) = []"
    by blast
  from n
    ExecuteBootstrapper_resets_stack_on_failure
      [of engine0 "''internal/bootstrap/loaders''" "[]" "[]" "push_async_ids 1 0 env0"]
  have "async_id_stack (snd (ExecuteBootstrapper engine0
          ''internal/bootstrap/loaders'' [] [] (push_async_ids 1 0 env0))) =
        async_id_stack (snd (ext_CompileAndCall engine0 ''internal/bootstrap/loaders'' [] []
          (push_async_ids 1 0 env0)))"
    by blast
  with c have b: "async_id_stack (snd (ExecuteBootstrapper engine0
          ''internal/bootstrap/loaders'' [] [] (push_async_ids 1 0 env0))) = [(1, 0)]"
    by simp
  from f s p a b show ?thesis by blast
qed

text \<open>
  C9.  A legacy \<open>MakeCallback\<close> (async context \<open>{0, 0}\<close>) whose \<open>InternalMakeCallback\<close>
  gives an empty result while the environment's \<open>makecallback_depth\<close> is 0 returns
  \<open>undefined\<close>, not an empty handle: for the overload taking the function, and for the
  overloads taking a property name (as a string handle or as a C string that the engine
  can hold) whose property on the receiver is that function.
\<close>

theorem legacy_MakeCallback_returns_undefined_on_failure:
  "InternalMakeCallback E recv callback argv legacy_context e = Inr (None, e') \<Longrightarrow>
   makecallback_depth e' = 0 \<Longrightarrow>
   MakeCallback_legacy_function E recv callback argv e = Inr (Some Undefined, e') \<and>
   (\<forall>r symbol. recv = Some r \<and> Get e r symbol = Some (Function callback) \<longrightarrow>
      MakeCallback_legacy_symbol E recv symbol argv e = Inr (Some Undefined, e')) \<and>
   (\<forall>r method. recv = Some r \<and> length method \<le> ext_kMaxLength E \<and>
       Get e r method = Some (Function callback) \<longrightarrow>
      MakeCallback_legacy_method E recv method argv e = Inr (Some Undefined, e'))"
  by (auto simp add: MakeCallback_legacy_function_def MakeCallback_legacy_symbol_def
      MakeCallback_legacy_method_def MakeCallback_method_def MakeCallback_symbol_def
      MakeCallback_function_def FromMaybe_def ToLocalChecked_def NewFromUtf8_def)

theorem legacy_MakeCallback_returns_undefined_on_failure_witness:
  "\<exists>e'. InternalMakeCallback engine_call_throws (Some ProcessObject) (Script 0) []
           legacy_context env0 = Inr (None, e') \<and>
        makecallback_depth e' = 0 \<and>
        Get env0 ProcessObject ''emit'' = Some (Function (Script 0)) \<and>
        MakeCallback_legacy_function engine_call_throws (Some ProcessObject) (Script 0) [] env0
          = Inr (Some Undefined, e') \<and>
        MakeCallback_legacy_symbol engine_call_throws (Some ProcessObject) ''emit'' [] env0
          = Inr (Some Undefined, e') \<and>
        MakeCallback_legacy_method engine_call_throws (Some ProcessObject) ''emit'' [] env0
          = Inr (Some Undefined, e')"
proof -
  have "\<exists>e'. InternalMakeCallback engine_call_throws (Some ProcessObject) (Script 0) []
           legacy_context env0 = Inr (None, e') \<and> makecallback_depth e' = 0"
    by (simp add: eval_defs)
  then obtain e' where
    i: "InternalMakeCallback engine_call_throws (Some ProcessObject) (Script 0) []
           legacy_context env0 = Inr (None, e')"
    and d: "makecallback_depth e' = 0"
    by blast
  have g: "Get env0 ProcessObject ''emit'' = Some (Function (Script 0))"
    by (simp add: eval_defs)
  have k: "length ''emit'' \<le> ext_kMaxLength engine_call_throws"
    by (simp add: eval_defs)
  from legacy_MakeCallback_returns_undefined_on_failure [OF i d] g k i d
  show ?thesis by blast
qed

text \<open>
  C10.  When \<open>EmitExit\<close> returns, it has first set \<open>process._exiting\<close> to \<open>true\<close>, then read
  the exit code \<open>c0\<close> from the process object, and only then called the process object's
  \<open>emit\<close> (through the domain callback when there is one): the first script call after
  the property is set has the arguments \<open>'exit'\<close> and \<open>c0\<close>, the code as it was stored before
  any listener ran, and it runs in an environment where \<open>_exiting\<close> is \<open>true\<close>.
\<close>

theorem EmitExit_sets_exiting_then_emits:
  assumes "EmitExit E e = Inr (code, e')"
  shows "\<exists>e1 c0 emit post.
           e1 = snd (Set_property ProcessObject ''_exiting'' (Bool True) (log EmitExitEv e)) \<and>
           heap e1 ProcessObject ''_exiting'' = Some (Bool True) \<and>
           stored_exit_code E e1 = Some c0 \<and>
           Get e1 ProcessObject ''emit'' = Some (Function emit) \<and>
           trace e' =
             trace e @
             [EmitExitEv,
              SetProperty ProcessObject ''_exiting'' (Bool True),
              AsyncCallbackScopeEnter,
              PushAsyncIds 0 0,
              FunctionCall (callee e legacy_context emit) (Some ProcessObject)
                (callee_args e legacy_context emit [Str ''exit'', Num (sint c0)])] @ post \<and>
           list_all is_callback_event post"
proof -
  define e1 where "e1 = snd (Set_property ProcessObject ''_exiting'' (Bool True) (log EmitExitEv e))"
  from EmitExit_unfold[OF assms] obtain c0 ret where
    c0: "stored_exit_code E e1 = Some c0"
    and mc: "MakeCallback_method E (Some ProcessObject) ''emit'' [Str ''exit'', Integer_New c0]
             \<lparr>async_id = 0, trigger_async_id = 0\<rparr> e1 = Inr (Some ret, e')"
    by (auto simp: e1_def)
  have h: "heap e1 ProcessObject ''_exiting'' = Some (Bool True)"
    and t: "trace e1 = trace e @ [EmitExitEv, SetProperty ProcessObject ''_exiting'' (Bool True)]"
    and d: "domain_callback e1 = domain_callback e"
    by (simp_all add: e1_def Set_property_def log_def)
  from trace_MakeCallback_method[OF mc] obtain emit post where
    "Get e1 ProcessObject ''emit'' = Some (Function emit)"
    "trace e' = trace e1 @ [AsyncCallbackScopeEnter, PushAsyncIds 0 0,
        FunctionCall (callee e1 \<lparr>async_id = 0, trigger_async_id = 0\<rparr> emit) (Some ProcessObject)
          (callee_args e1 \<lparr>async_id = 0, trigger_async_id = 0\<rparr> emit [Str ''exit'', Integer_New c0])] @ post"
    "list_all is_callback_event post"
    by auto
  with c0 h t d show ?thesis
    by (auto simp: e1_def[symmetric] callee_def callee_args_def legacy_context_def Integer_New_def)
qed


theorem EmitExit_sets_exiting_then_emits_witness:
  "\<exists>e'. EmitExit (engine_exit_sets 7) env0 = Inr (7, e') \<and>
        stored_exit_code (engine_exit_sets 7) env0 = Some 0 \<and>
        FunctionCall (Script 0) (Some ProcessObject) [Str ''exit'', Num 0] \<in> set (trace e')"
proof -
  have "\<exists>e'. EmitExit (engine_exit_sets 7) env0 = Inr (7, e')"
    by (simp add: eval_defs)
  then obtain e' where r: "EmitExit (engine_exit_sets 7) env0 = Inr (7, e')" ..
  have c: "stored_exit_code (engine_exit_sets 7) env0 = Some 0"
    by (simp add: eval_defs)
  from EmitExit_sets_exiting_then_emits [OF r] obtain c0 emit post where
    c0: "stored_exit_code (engine_exit_sets 7)
           (snd (Set_property ProcessObject ''_exiting'' (Bool True) (log EmitExitEv env0))) = Some c0"
    and g: "Get (snd (Set_property ProcessObject ''_exiting'' (Bool True) (log EmitExitEv env0)))
              ProcessObject ''emit'' = Some (Function emit)"
    and t: "trace e' =
             trace env0 @
             [EmitExitEv,
              SetProperty ProcessObject ''_exiting'' (Bool True),
              AsyncCallbackScopeEnter,
              PushAsyncIds 0 0,
              FunctionCall (callee env0 legacy_context emit) (Some ProcessObject)
                (callee_args env0 legacy_context emit [Str ''exit'', Num (sint c0)])] @ post"
    by blast
  from c0 have "c0 = 0" by (simp add: eval_defs)
  moreover from g have "emit = Script 0" by (simp add: eval_defs)
  ultimately have "FunctionCall (Script 0) (Some ProcessObject) [Str ''exit'', Num 0]
      \<in> set (trace e')"
    using t by (simp add: eval_defs)
  with r c show ?thesis by blast
qed

text \<open>
  C3.  Take a run of \<open>Start\<close> that returns after the exit notification, and let \<open>e4\<close> be
  the environment the event loop left.  \<open>EmitExit\<close> reads the code \<open>c0\<close> stored in the
  process object, passes it to the \<open>'exit'\<close> listeners, and when they have run (in \<open>e2\<close>)
  reads the stored code again: that second value is what \<open>Start\<close> returns, not \<open>c0\<close>.  The
  environment \<open>Start\<close> ends in is \<open>e2\<close> after the teardown calls.  In the witness the code
  starts at 0, the listeners receive 0, one of them sets it to 7, and \<open>Start\<close> returns 7.
\<close>

theorem Start_returns_exit_code_stored_after_exit_listeners:
  assumes "Start_isolate E args exec_args e = Some (Inr (code, ef))"
    and "EmitExitEv \<in> set (new_events e ef)"
  shows "\<exists>e0 e3 e4 c0 ret e2.
           StartInspector E (if length args > 1 then Some (args ! 1) else None)
             (external EnvironmentStart (ext_Environment_Start E args exec_args) e) = Inr e0 \<and>
           Start_bootstrap E e0 = Inr e3 \<and>
           Start_loop E e3 = Some (Inr e4) \<and>
           stored_exit_code E
             (snd (Set_property ProcessObject ''_exiting'' (Bool True)
                    (log EmitExitEv (set_trace_sync_io False e4)))) = Some c0 \<and>
           MakeCallback_method E (Some ProcessObject) ''emit'' [Str ''exit'', Integer_New c0]
             \<lparr>async_id = 0, trigger_async_id = 0\<rparr>
             (snd (Set_property ProcessObject ''_exiting'' (Bool True)
                    (log EmitExitEv (set_trace_sync_io False e4)))) = Inr (Some ret, e2) \<and>
           stored_exit_code E e2 = Some code \<and>
           ef = CancelVMTasks E (DrainVMTasks E (RunAtExit E
                  (external RunCleanupEv (ext_RunCleanup E)
                    (log UvTtyResetMode
                      (external StopSubWorkerContexts (ext_stop_sub_worker_contexts E)
                        (set_can_call_into_js False (WaitForInspectorDisconnect E e2)))))))"
proof -
  from Start_isolate_states[OF assms(1)] obtain e0 where
    si: "StartInspector E (if length args > 1 then Some (args ! 1) else None)
             (external EnvironmentStart (ext_Environment_Start E args exec_args) e) = Inr e0"
    and d: "(inspector_enabled e0 \<and> \<not> InspectorStarted E e0 \<and> code = 12 \<and> ef = e0) \<or>
            (\<exists>e3 e4. Start_bootstrap E e0 = Inr e3 \<and> Start_loop E e3 = Some (Inr e4) \<and>
                Start_exit E e4 = Inr (code, ef))"
    by blast
  from trace_StartInspector[OF si] have "EmitExitEv \<notin> set (new_events e e0)"
    by (auto simp: new_events_def)
  with assms(2) have "ef \<noteq> e0" by auto
  with d obtain e3 e4 where b: "Start_bootstrap E e0 = Inr e3"
    and l: "Start_loop E e3 = Some (Inr e4)" and x: "Start_exit E e4 = Inr (code, ef)"
    by blast
  from Start_exit_states[OF x] obtain e2 where
    ee: "EmitExit E (set_trace_sync_io False e4) = Inr (code, e2)"
    and ef: "ef = CancelVMTasks E (DrainVMTasks E (RunAtExit E
                  (external RunCleanupEv (ext_RunCleanup E)
                    (log UvTtyResetMode
                      (external StopSubWorkerContexts (ext_stop_sub_worker_contexts E)
                        (set_can_call_into_js False (WaitForInspectorDisconnect E e2)))))))"
    by blast
  from EmitExit_unfold[OF ee] obtain c0 ret where
    "stored_exit_code E
             (snd (Set_property ProcessObject ''_exiting'' (Bool True)
                    (log EmitExitEv (set_trace_sync_io False e4)))) = Some c0"
    "MakeCallback_method E (Some ProcessObject) ''emit'' [Str ''exit'', Integer_New c0]
             \<lparr>async_id = 0, trigger_async_id = 0\<rparr>
             (snd (Set_property ProcessObject ''_exiting'' (Bool True)
                    (log EmitExitEv (set_trace_sync_io False e4)))) = Inr (Some ret, e2)"
    "stored_exit_code E e2 = Some code"
    by blast
  with si b l ef show ?thesis by blast
qed

theorem Start_returns_exit_code_stored_after_exit_listeners_witness:
  "\<exists>ef e4 ret e2.
     Start_isolate (engine_exit_sets 7) [''node''] [] env0 = Some (Inr (7, ef)) \<and>
     EmitExitEv \<in> set (new_events env0 ef) \<and>
     stored_exit_code (engine_exit_sets 7) env0 = Some 0 \<and>
     stored_exit_code (engine_exit_sets 7)
       (snd (Set_property ProcessObject ''_exiting'' (Bool True)
              (log EmitExitEv (set_trace_sync_io False e4)))) = Some 0 \<and>
     MakeCallback_method (engine_exit_sets 7) (Some ProcessObject) ''emit''
       [Str ''exit'', Integer_New 0] \<lparr>async_id = 0, trigger_async_id = 0\<rparr>
       (snd (Set_property ProcessObject ''_exiting'' (Bool True)
              (log EmitExitEv (set_trace_sync_io False e4)))) = Inr (Some ret, e2) \<and>
     stored_exit_code (engine_exit_sets 7) e2 = Some 7 \<and>
     stored_exit_code (engine_exit_sets 7) ef = Some 7"
proof -
  have "\<exists>ef. Start_isolate (engine_exit_sets 7) [''node''] [] env0 = Some (Inr (7, ef)) \<and>
          EmitExitEv \<in> set (new_events env0 ef) \<and>
          stored_exit_code (engine_exit_sets 7) ef = Some 7"
    unfolding Start_isolate_def
    by (subst Start_loop.simps) (simp add: eval_defs new_events_def)
  then obtain ef where
    r: "Start_isolate (engine_exit_sets 7) [''node''] [] env0 = Some (Inr (7, ef))"
    and x: "EmitExitEv \<in> set (new_events env0 ef)"
    and s: "stored_exit_code (engine_exit_sets 7) ef = Some 7"
    by blast
  have c: "stored_exit_code (engine_exit_sets 7) env0 = Some 0"
    by (simp add: eval_defs)
  from Start_returns_exit_code_stored_after_exit_listeners [OF r x]
  obtain e0 e3 e4 c0 ret e2 where
    si: "StartInspector (engine_exit_sets 7) (if length [''node''] > 1 then Some ([''node''] ! 1) else None)
             (external EnvironmentStart (ext_Environment_Start (engine_exit_sets 7) [''node''] []) env0) = Inr e0"
    and b: "Start_bootstrap (engine_exit_sets 7) e0 = Inr e3"
    and l: "Start_loop (engine_exit_sets 7) e3 = Some (Inr e4)"
    and c0: "stored_exit_code (engine_exit_sets 7)
             (snd (Set_property ProcessObject ''_exiting'' (Bool True)
                    (log EmitExitEv (set_trace_sync_io False e4)))) = Some c0"
    and mc: "MakeCallback_method (engine_exit_sets 7) (Some ProcessObject) ''emit'' [Str ''exit'', Integer_New c0]
             \<lparr>async_id = 0, trigger_async_id = 0\<rparr>
             (snd (Set_property ProcessObject ''_exiting'' (Bool True)
                    (log EmitExitEv (set_trace_sync_io False e4)))) = Inr (Some ret, e2)"
    and c2: "stored_exit_code (engine_exit_sets 7) e2 = Some 7"
    by blast
  have k: "case StartInspector (engine_exit_sets 7) (if length [''node''] > 1 then Some ([''node''] ! 1) else None)
             (external EnvironmentStart (ext_Environment_Start (engine_exit_sets 7) [''node''] []) env0) of
             Inl f \<Rightarrow> False
           | Inr e0 \<Rightarrow>
              (case Start_bootstrap (engine_exit_sets 7) e0 of
                 Inl f \<Rightarrow> False
               | Inr e3 \<Rightarrow>
                  (case Start_loop (engine_exit_sets 7) e3 of
                     Some (Inr e4) \<Rightarrow>
                       stored_exit_code (engine_exit_sets 7)
                         (snd (Set_property ProcessObject ''_exiting'' (Bool True)
                           (log EmitExitEv (set_trace_sync_io False e4)))) = Some 0
                   | _ \<Rightarrow> False))"
    by (subst Start_loop.simps) (simp add: eval_defs)
  from k si b l have "stored_exit_code (engine_exit_sets 7)
                         (snd (Set_property ProcessObject ''_exiting'' (Bool True)
                           (log EmitExitEv (set_trace_sync_io False e4)))) = Some 0"
    by simp
  with c0 have z: "c0 = 0" by simp
  from r x s c c0 mc c2 z show ?thesis by blast
qed




text \<open>
  C7, as the spec states it, fails in one clause: the code 12 is not distinct from every
  script-level exit code.  Here the isolate is allocated, the inspector is not requested
  and the stored exit code starts at 0; an \<open>'exit'\<close> listener stores 12, and \<open>Start\<close>
  returns 12 after the event loop, the exit notification and the cleanup have run.
\<close>

theorem Start_returns_12_from_script_counterexample:
  "ext_Isolate_Allocate (engine_exit_sets 12) \<and> NewContext (engine_exit_sets 12) \<and>
   \<not> inspector_enabled env0 \<and>
   stored_exit_code (engine_exit_sets 12) env0 = Some 0 \<and>
   (case Start_event_loop (engine_exit_sets 12) [''node''] [] env0 of
      Some (Inr (code, ef)) \<Rightarrow>
        code = 12 \<and>
        UvRun \<in> set (new_events env0 ef) \<and>
        EmitExitEv \<in> set (new_events env0 ef) \<and>
        RunCleanupEv \<in> set (new_events env0 ef) \<and>
        stored_exit_code (engine_exit_sets 12) ef = Some 12
    | _ \<Rightarrow> False)"
  unfolding Start_event_loop_def Start_isolate_def
  by (subst Start_loop.simps) (simp add: eval_defs new_events_def)

text \<open>
  C7, amended.  When \<open>Isolate::Allocate\<close> gives no isolate, \<open>Start\<close> returns 12 with the
  environment untouched: nothing has run, no cleanup hook and no turn of the event loop.
  When the inspector was requested and is not listening after \<open>StartInspector\<close>, \<open>Start\<close>
  returns 12 as well, having run only \<open>env.Start\<close> and \<open>StartInspector\<close>.  Both hold for
  every engine and environment: on these paths the value is the constant of the code, not
  one read from the process object.  (The value is not reserved: see the run above.)
\<close>

theorem Start_returns_12_on_startup_failure:
  "(\<not> ext_Isolate_Allocate E \<longrightarrow> Start_event_loop E args exec_args e = Some (Inr (12, e))) \<and>
   (ext_Isolate_Allocate E \<and> NewContext E \<and>
    StartInspector E (if length args > 1 then Some (args ! 1) else None)
      (external EnvironmentStart (ext_Environment_Start E args exec_args) e) = Inr e2 \<and>
    inspector_enabled e2 \<and> \<not> InspectorStarted E e2 \<longrightarrow>
      Start_event_loop E args exec_args e = Some (Inr (12, e2)) \<and>
      set (new_events e e2) \<subseteq> {EnvironmentStart, StartInspectorEv})"
  by (auto simp: Start_event_loop_def NewIsolate_def Start_isolate_def Let_def new_events_def
      StartInspector_def external_def split: if_splits)

theorem Start_returns_12_on_startup_failure_witness:
  "Start_event_loop engine_no_isolate [''node''] [] env0 = Some (Inr (12, env0)) \<and>
   new_events env0 env0 = [] \<and>
   (\<exists>e2. Start_event_loop engine0 [''node''] [] (env0\<lparr>inspector_enabled := True\<rparr>)
            = Some (Inr (12, e2)) \<and>
         set (new_events (env0\<lparr>inspector_enabled := True\<rparr>) e2)
           \<subseteq> {EnvironmentStart, StartInspectorEv})"
proof -
  have a: "\<not> ext_Isolate_Allocate engine_no_isolate" by (simp add: eval_defs)
  have b: "ext_Isolate_Allocate engine0" "NewContext engine0" by (simp_all add: eval_defs)
  have "\<exists>e2. StartInspector engine0 (if length [''node''] > 1 then Some ([''node''] ! 1) else None)
      (external EnvironmentStart (ext_Environment_Start engine0 [''node''] [])
         (env0\<lparr>inspector_enabled := True\<rparr>)) = Inr e2 \<and>
      inspector_enabled e2 \<and> \<not> InspectorStarted engine0 e2"
    by (simp add: eval_defs)
  then obtain e2 where c: "StartInspector engine0 (if length [''node''] > 1 then Some ([''node''] ! 1) else None)
      (external EnvironmentStart (ext_Environment_Start engine0 [''node''] [])
         (env0\<lparr>inspector_enabled := True\<rparr>)) = Inr e2"
    and d: "inspector_enabled e2" "\<not> InspectorStarted engine0 e2"
    by blast
  have n: "new_events env0 env0 = []" by (simp add: new_events_def)
  from a Start_returns_12_on_startup_failure [of engine_no_isolate "[''node'']" "[]" env0]
  have x: "Start_event_loop engine_no_isolate [''node''] [] env0 = Some (Inr (12, env0))"
    by blast
  from b c d
    Start_returns_12_on_startup_failure
      [of engine0 "[''node'']" "[]" "env0\<lparr>inspector_enabled := True\<rparr>" e2]
  have "Start_event_loop engine0 [''node''] [] (env0\<lparr>inspector_enabled := True\<rparr>)
            = Some (Inr (12, e2)) \<and>
         set (new_events (env0\<lparr>inspector_enabled := True\<rparr>) e2)
           \<subseteq> {EnvironmentStart, StartInspectorEv}"
    by blast
  with x n show ?thesis by blast
qed


text \<open>
  C2, as the spec states it, fails: the claim has a failed bootstrap propagated instead of
  entering the event loop.  Here the first bootstrap script fails (its result is empty and
  the async-id stack is cleared); \<open>Start\<close> leaves the scope, runs the event loop, emits
  \<open>'beforeExit'\<close> and \<open>'exit'\<close>, and returns the exit code 0.
\<close>

theorem Start_enters_loop_after_failed_bootstrap_counterexample:
  "\<exists>ef. Start_isolate engine_bootstrap_fails [''node''] [] env0 = Some (Inr (0, ef)) \<and>
        new_events env0 ef =
          [EnvironmentStart, StartInspectorEv, AsyncCallbackScopeEnter, PushAsyncIds 1 0,
           SetProperty GlobalObject ''global'' (Object GlobalObject),
           SetProperty ProcessObject ''_rawDebug'' (Function (Native ''RawDebug'')),
           CompileAndCallEv ''internal/bootstrap/loaders'' False,
           ClearAsyncIdStack, AsyncCallbackScopeExit,
           UvRun, DrainVMTasksEv, LoopAlive False, BeforeExitCallbacks, LoopAlive False,
           EmitBeforeExitEv, AsyncCallbackScopeEnter, PushAsyncIds 0 0,
           FunctionCall (Script 0) (Some ProcessObject) [Str ''beforeExit'', Num 0],
           PopAsyncId 0, TickCallbackEv False, AsyncCallbackScopeExit, LoopAlive False,
           SetTraceSyncIo False, EmitExitEv,
           SetProperty ProcessObject ''_exiting'' (Bool True),
           AsyncCallbackScopeEnter, PushAsyncIds 0 0,
           FunctionCall (Script 0) (Some ProcessObject) [Str ''exit'', Num 0],
           PopAsyncId 0, TickCallbackEv False, AsyncCallbackScopeExit,
           WaitForInspectorDisconnectEv, SetCanCallIntoJs False, StopSubWorkerContexts,
           UvTtyResetMode, RunCleanupEv, RunAtExitEv, DrainVMTasksEv, CancelVMTasksEv]"
  unfolding Start_isolate_def
  by (subst Start_loop.simps) (simp add: eval_defs new_events_def)

text \<open>
  C2, amended.  Every run of \<open>Start\<close> that gets past the inspector check and returns has
  run the bootstrap inside exactly one \<open>AsyncCallbackScope\<close>: it enters the scope, pushes
  the async ids (1, 0), runs \<open>LoadEnvironment\<close> (which opens no scope and pushes nothing
  itself), calls \<open>pop_async_id(1)\<close> and leaves the scope; the next call is \<open>uv_run\<close>,
  whether or not a bootstrap script failed.  The call \<open>pop_async_id(1)\<close> pops exactly when
  \<open>LoadEnvironment\<close> left the stack non-empty.  When a bootstrap script failed, the stack
  has been cleared and nothing is popped.  When no script failed and the scripts leave the
  stack as they find it, the pair (1, 0) is popped and the stack is again what it was
  before the scope.  The witness has one run of each kind.
\<close>

theorem Start_bootstraps_in_one_scope_then_runs_loop:
  assumes "Start_isolate E args exec_args e = Some (Inr (code, ef))"
    and "AsyncCallbackScopeEnter \<in> set (new_events e ef)"
  shows "\<exists>e0 e3 eb pre boot pop rest.
           StartInspector E (if length args > 1 then Some (args ! 1) else None)
             (external EnvironmentStart (ext_Environment_Start E args exec_args) e) = Inr e0 \<and>
           LoadEnvironment E (push_async_ids 1 0 (AsyncCallbackScope_enter e0)) = Inr e3 \<and>
           Start_bootstrap E e0 = Inr eb \<and>
           new_events e ef =
             pre @ [AsyncCallbackScopeEnter, PushAsyncIds 1 0] @ boot @ pop
             @ [AsyncCallbackScopeExit, UvRun] @ rest \<and>
           (pre = [EnvironmentStart] \<or> pre = [EnvironmentStart, StartInspectorEv]) \<and>
           new_events e0 e3 = [AsyncCallbackScopeEnter, PushAsyncIds 1 0] @ boot \<and>
           list_all is_bootstrap_event boot \<and>
           pop = (if async_id_stack e3 = [] then [] else [PopAsyncId 1]) \<and>
           async_id_stack eb = tl (async_id_stack e3) \<and>
           ((\<exists>ident. CompileAndCallEv ident False \<in> set boot) \<longrightarrow>
              async_id_stack e3 = [] \<and> pop = []) \<and>
           (bootstrap_keeps_stack E \<and> (\<forall>ident. CompileAndCallEv ident False \<notin> set boot) \<longrightarrow>
              pop = [PopAsyncId 1] \<and> async_id_stack eb = async_id_stack e0)"
proof -
  from Start_isolate_states[OF assms(1)] obtain e0 where
    si: "StartInspector E (if length args > 1 then Some (args ! 1) else None)
             (external EnvironmentStart (ext_Environment_Start E args exec_args) e) = Inr e0"
    and d: "(inspector_enabled e0 \<and> \<not> InspectorStarted E e0 \<and> code = 12 \<and> ef = e0) \<or>
            (\<exists>e3 e4. Start_bootstrap E e0 = Inr e3 \<and> Start_loop E e3 = Some (Inr e4) \<and>
                Start_exit E e4 = Inr (code, ef))"
    by blast
  from trace_StartInspector[OF si] obtain pre where
    t0: "trace e0 = trace e @ pre"
    and pre: "pre = [EnvironmentStart] \<or> pre = [EnvironmentStart, StartInspectorEv]"
    by blast
  from t0 pre have "AsyncCallbackScopeEnter \<notin> set (new_events e e0)"
    by (auto simp: new_events_def)
  with assms(2) have "ef \<noteq> e0" by auto
  with d obtain eb e4 where b: "Start_bootstrap E e0 = Inr eb"
    and l: "Start_loop E eb = Some (Inr e4)" and x: "Start_exit E e4 = Inr (code, ef)"
    by blast
  from Start_bootstrap_states[OF b] obtain e3 boot where
    le: "LoadEnvironment E (push_async_ids 1 0 (AsyncCallbackScope_enter e0)) = Inr e3"
    and t3: "trace e3 = trace e0 @ [AsyncCallbackScopeEnter, PushAsyncIds 1 0] @ boot"
    and boot: "list_all is_bootstrap_event boot"
    and tb: "trace eb = trace e3 @ (if async_id_stack e3 = [] then [] else [PopAsyncId 1])
                      @ [AsyncCallbackScopeExit]"
    and sb: "async_id_stack eb = tl (async_id_stack e3)"
    and f: "(\<exists>ident. CompileAndCallEv ident False \<in> set boot) \<longrightarrow> async_id_stack e3 = []"
    and k: "bootstrap_keeps_stack E \<and> (\<forall>ident. CompileAndCallEv ident False \<notin> set boot) \<longrightarrow>
              async_id_stack e3 = (1, 0) # async_id_stack e0"
    by blast
  define pop where "pop = (if async_id_stack e3 = [] then [] else [PopAsyncId 1])"
  from Start_loop_trace[OF l] obtain lp where t4: "trace e4 = trace eb @ lp"
    and lp: "loop_trace lp" by blast
  from loop_trace_starts[OF lp] obtain lp' where lp': "lp = UvRun # lp'" by blast
  from Start_exit_trace[OF x] obtain mid where
    t5: "trace ef = trace e4 @ [SetTraceSyncIo False, EmitExitEv] @ mid @ teardown_events"
    by blast
  have n: "new_events e ef =
             pre @ [AsyncCallbackScopeEnter, PushAsyncIds 1 0] @ boot @ pop
             @ [AsyncCallbackScopeExit, UvRun]
             @ (lp' @ [SetTraceSyncIo False, EmitExitEv] @ mid @ teardown_events)"
    by (rule new_events_append) (simp add: t0 t3 tb t4 t5 lp' pop_def)
  have n3: "new_events e0 e3 = [AsyncCallbackScopeEnter, PushAsyncIds 1 0] @ boot"
    by (rule new_events_append) (simp add: t3)
  have c1: "(\<exists>ident. CompileAndCallEv ident False \<in> set boot) \<longrightarrow>
              async_id_stack e3 = [] \<and> pop = []"
    using f by (simp add: pop_def)
  have c2: "bootstrap_keeps_stack E \<and> (\<forall>ident. CompileAndCallEv ident False \<notin> set boot) \<longrightarrow>
              pop = [PopAsyncId 1] \<and> async_id_stack eb = async_id_stack e0"
    using k sb by (simp add: pop_def)
  have p: "pop = (if async_id_stack e3 = [] then [] else [PopAsyncId 1])" by (simp add: pop_def)
  from si le b n pre n3 boot p sb c1 c2 show ?thesis by blast
qed

theorem Start_bootstraps_in_one_scope_then_runs_loop_witness:
  "(\<exists>ef pre boot rest.
      Start_isolate engine_bootstrap_fails [''node''] [] env0 = Some (Inr (0, ef)) \<and>
      AsyncCallbackScopeEnter \<in> set (new_events env0 ef) \<and>
      new_events env0 ef =
        pre @ [AsyncCallbackScopeEnter, PushAsyncIds 1 0] @ boot @ []
        @ [AsyncCallbackScopeExit, UvRun] @ rest \<and>
      list_all is_bootstrap_event boot \<and>
      CompileAndCallEv ''internal/bootstrap/loaders'' False \<in> set boot) \<and>
   bootstrap_keeps_stack engine0 \<and>
   (\<exists>ef eb pre boot rest.
      Start_isolate engine0 [''node''] [] env0 = Some (Inr (0, ef)) \<and>
      AsyncCallbackScopeEnter \<in> set (new_events env0 ef) \<and>
      new_events env0 ef =
        pre @ [AsyncCallbackScopeEnter, PushAsyncIds 1 0] @ boot @ [PopAsyncId 1]
        @ [AsyncCallbackScopeExit, UvRun] @ rest \<and>
      list_all is_bootstrap_event boot \<and>
      (\<forall>ident. CompileAndCallEv ident False \<notin> set boot) \<and>
      Start_bootstrap engine0 (env0\<lparr>trace := [EnvironmentStart, StartInspectorEv]\<rparr>) = Inr eb \<and>
      async_id_stack eb = [])"
proof -
  have "\<exists>ef. Start_isolate engine_bootstrap_fails [''node''] [] env0 = Some (Inr (0, ef)) \<and>
     AsyncCallbackScopeEnter \<in> set (new_events env0 ef)"
    unfolding Start_isolate_def
    by (subst Start_loop.simps) (simp add: eval_defs new_events_def)
  then obtain ef where
    r: "Start_isolate engine_bootstrap_fails [''node''] [] env0 = Some (Inr (0, ef))"
    and a: "AsyncCallbackScopeEnter \<in> set (new_events env0 ef)"
    by blast
  have k: "case StartInspector engine_bootstrap_fails
                  (if length [''node''] > 1 then Some ([''node''] ! 1) else None)
                  (external EnvironmentStart
                     (ext_Environment_Start engine_bootstrap_fails [''node''] []) env0) of
             Inl f \<Rightarrow> False
           | Inr e0 \<Rightarrow>
               (case LoadEnvironment engine_bootstrap_fails
                       (push_async_ids 1 0 (AsyncCallbackScope_enter e0)) of
                  Inl f \<Rightarrow> False
                | Inr e3 \<Rightarrow>
                    CompileAndCallEv ''internal/bootstrap/loaders'' False
                      \<in> set (drop 2 (new_events e0 e3)))"
    by (simp add: eval_defs new_events_def)
  from Start_bootstraps_in_one_scope_then_runs_loop [OF r a]
  obtain e0 e3 eb pre boot pop rest where
    si: "StartInspector engine_bootstrap_fails
           (if length [''node''] > 1 then Some ([''node''] ! 1) else None)
           (external EnvironmentStart
              (ext_Environment_Start engine_bootstrap_fails [''node''] []) env0) = Inr e0"
    and le: "LoadEnvironment engine_bootstrap_fails
               (push_async_ids 1 0 (AsyncCallbackScope_enter e0)) = Inr e3"
    and n: "new_events env0 ef =
             pre @ [AsyncCallbackScopeEnter, PushAsyncIds 1 0] @ boot @ pop
             @ [AsyncCallbackScopeExit, UvRun] @ rest"
    and n3: "new_events e0 e3 = [AsyncCallbackScopeEnter, PushAsyncIds 1 0] @ boot"
    and boot: "list_all is_bootstrap_event boot"
    and c1: "(\<exists>ident. CompileAndCallEv ident False \<in> set boot) \<longrightarrow>
              async_id_stack e3 = [] \<and> pop = []"
    by blast
  from k si le n3 have f: "CompileAndCallEv ''internal/bootstrap/loaders'' False \<in> set boot"
    by simp
  with c1 have "pop = []" by blast
  with r a n boot f have first: "\<exists>ef pre boot rest.
      Start_isolate engine_bootstrap_fails [''node''] [] env0 = Some (Inr (0, ef)) \<and>
      AsyncCallbackScopeEnter \<in> set (new_events env0 ef) \<and>
      new_events env0 ef =
        pre @ [AsyncCallbackScopeEnter, PushAsyncIds 1 0] @ boot @ []
        @ [AsyncCallbackScopeExit, UvRun] @ rest \<and>
      list_all is_bootstrap_event boot \<and>
      CompileAndCallEv ''internal/bootstrap/loaders'' False \<in> set boot"
    by blast
  have ks: "bootstrap_keeps_stack engine0"
    by (simp add: bootstrap_keeps_stack_def engine0_def)
  have "\<exists>ef. Start_isolate engine0 [''node''] [] env0 = Some (Inr (0, ef)) \<and>
     AsyncCallbackScopeEnter \<in> set (new_events env0 ef)"
    unfolding Start_isolate_def
    by (subst Start_loop.simps) (simp add: eval_defs new_events_def)
  then obtain ef' where
    r': "Start_isolate engine0 [''node''] [] env0 = Some (Inr (0, ef'))"
    and a': "AsyncCallbackScopeEnter \<in> set (new_events env0 ef')"
    by blast
  have k': "case StartInspector engine0
                  (if length [''node''] > 1 then Some ([''node''] ! 1) else None)
                  (external EnvironmentStart
                     (ext_Environment_Start engine0 [''node''] []) env0) of
             Inl f \<Rightarrow> False
           | Inr e0 \<Rightarrow>
               e0 = env0\<lparr>trace := [EnvironmentStart, StartInspectorEv]\<rparr> \<and>
               (case LoadEnvironment engine0
                       (push_async_ids 1 0 (AsyncCallbackScope_enter e0)) of
                  Inl f \<Rightarrow> False
                | Inr e3 \<Rightarrow>
                    (\<forall>ident. CompileAndCallEv ident False \<notin> set (drop 2 (new_events e0 e3))))"
    by (simp add: eval_defs new_events_def)
  from Start_bootstraps_in_one_scope_then_runs_loop [OF r' a']
  obtain e0' e3' eb' pre' boot' pop' rest' where
    si': "StartInspector engine0
           (if length [''node''] > 1 then Some ([''node''] ! 1) else None)
           (external EnvironmentStart
              (ext_Environment_Start engine0 [''node''] []) env0) = Inr e0'"
    and le': "LoadEnvironment engine0
               (push_async_ids 1 0 (AsyncCallbackScope_enter e0')) = Inr e3'"
    and b': "Start_bootstrap engine0 e0' = Inr eb'"
    and n': "new_events env0 ef' =
             pre' @ [AsyncCallbackScopeEnter, PushAsyncIds 1 0] @ boot' @ pop'
             @ [AsyncCallbackScopeExit, UvRun] @ rest'"
    and n3': "new_events e0' e3' = [AsyncCallbackScopeEnter, PushAsyncIds 1 0] @ boot'"
    and boot': "list_all is_bootstrap_event boot'"
    and c2': "bootstrap_keeps_stack engine0 \<and> (\<forall>ident. CompileAndCallEv ident False \<notin> set boot') \<longrightarrow>
              pop' = [PopAsyncId 1] \<and> async_id_stack eb' = async_id_stack e0'"
    by blast
  from k' si' le' n3' have e0': "e0' = env0\<lparr>trace := [EnvironmentStart, StartInspectorEv]\<rparr>"
    and nf: "\<forall>ident. CompileAndCallEv ident False \<notin> set boot'"
    by simp_all
  from c2' ks nf have p': "pop' = [PopAsyncId 1]"
    and s': "async_id_stack eb' = async_id_stack e0'"
    by blast+
  have n'': "new_events env0 ef' =
        pre' @ [AsyncCallbackScopeEnter, PushAsyncIds 1 0] @ boot' @ [PopAsyncId 1]
        @ [AsyncCallbackScopeExit, UvRun] @ rest'"
    using n' unfolding p' .
  have b'': "Start_bootstrap engine0 (env0\<lparr>trace := [EnvironmentStart, StartInspectorEv]\<rparr>) = Inr eb'"
    using b' unfolding e0' .
  have s'': "async_id_stack eb' = []"
    using s' unfolding e0' by (simp add: env0_def)
  from r' a' n'' boot' nf b'' s'' have second: "\<exists>ef eb pre boot rest.
      Start_isolate engine0 [''node''] [] env0 = Some (Inr (0, ef)) \<and>
      AsyncCallbackScopeEnter \<in> set (new_events env0 ef) \<and>
      new_events env0 ef =
        pre @ [AsyncCallbackScopeEnter, PushAsyncIds 1 0] @ boot @ [PopAsyncId 1]
        @ [AsyncCallbackScopeExit, UvRun] @ rest \<and>
      list_all is_bootstrap_event boot \<and>
      (\<forall>ident. CompileAndCallEv ident False \<notin> set boot) \<and>
      Start_bootstrap engine0 (env0\<lparr>trace := [EnvironmentStart, StartInspectorEv]\<rparr>) = Inr eb \<and>
      async_id_stack eb = []"
    by blast
  from first ks second show ?thesis by blast
qed

text \<open>
  C4.  Let the before-exit hooks never schedule referenced work (\<open>quiet_hooks\<close>).  Then every
  run of the loop that returns has made exactly one before-exit pass; and as soon as the
  event loop goes idle (after \<open>n\<close> turns in which \<open>uv_run\<close> and \<open>DrainVMTasks\<close> left it
  alive), the loop ends, with its result or with an abort inside \<open>EmitBeforeExit\<close>, after
  that one pass and \<open>n + 1\<close> turns.  If instead the first pass schedules exactly one unit of
  referenced work, the next turn runs it and the pass after it schedules nothing, the
  loop ends after exactly one more turn: \<open>n + 2\<close> turns and two passes.
\<close>

theorem before_exit_loop_terminates:
  "(quiet_hooks E \<and> idle_after E e n \<longrightarrow>
      (\<exists>r. Start_loop E e = Some r \<and>
           (\<forall>e'. r = Inr e' \<longrightarrow>
              count_list (new_events e e') BeforeExitCallbacks = 1 \<and>
              count_list (new_events e e') UvRun = Suc n))) \<and>
   (idle_after E e n \<and>
    RunBeforeExit E (after_turns E e n) = Inr e4 \<and> referenced_work e4 = 1 \<and>
    idle_after E (snd (uv_loop_alive e4)) 0 \<and>
    RunBeforeExit E (turn E (snd (uv_loop_alive e4))) = Inr e7 \<and> referenced_work e7 = 0 \<longrightarrow>
      Start_loop E e = Some (Inr (snd (uv_loop_alive e7))) \<and>
      count_list (new_events e (snd (uv_loop_alive e7))) BeforeExitCallbacks = 2 \<and>
      count_list (new_events e (snd (uv_loop_alive e7))) UvRun = Suc n + 1) \<and>
   (quiet_hooks E \<and> Start_loop E e = Some (Inr e') \<longrightarrow>
      count_list (new_events e e') BeforeExitCallbacks = 1)"
proof -
  have A: "\<exists>r. Start_loop E e = Some r \<and>
           (\<forall>e'. r = Inr e' \<longrightarrow>
              count_list (new_events e e') BeforeExitCallbacks = 1 \<and>
              count_list (new_events e e') UvRun = Suc n)"
    if h: "quiet_hooks E \<and> idle_after E e n" for n
  proof -
  from h have q: "quiet_hooks E" and i: "idle_after E e n" by simp_all
  define s where "s = after_turns E e n"
  from trace_after_turns[OF i] obtain tr where
    rs: "referenced_work s = 0" and ts: "trace s = trace e @ tr"
    and cu: "count_list tr UvRun = Suc n" and cb: "count_list tr BeforeExitCallbacks = 0"
    by (auto simp: s_def)
  show "\<exists>r. Start_loop E e = Some r \<and>
           (\<forall>e'. r = Inr e' \<longrightarrow>
              count_list (new_events e e') BeforeExitCallbacks = 1 \<and>
              count_list (new_events e e') UvRun = Suc n)"
  proof (cases "RunBeforeExit E s")
    case (Inl f)
    with Start_loop_when_idle[OF i] show ?thesis by (simp add: s_def)
  next
    case (Inr e4)
    with q rs have r4: "referenced_work e4 = 0" by (auto simp: quiet_hooks_def)
    from RunBeforeExit_trace[OF Inr] obtain alive evs where
      t4: "trace e4 = trace s @ before_exit_pass alive evs" and ev: "list_all is_callback_event evs"
      by blast
    from Start_loop_when_idle[OF i] Inr r4
    have res: "Start_loop E e = Some (Inr (snd (uv_loop_alive e4)))" by (simp add: s_def)
    have "new_events e (snd (uv_loop_alive e4)) = tr @ before_exit_pass alive evs @ [LoopAlive False]"
      by (rule new_events_append) (simp add: trace_snd_uv_loop_alive t4 ts r4)
    with cu cb count_before_exit_pass[OF ev, of alive] res show ?thesis by simp
  qed
  qed
  have B: "Start_loop E e = Some (Inr (snd (uv_loop_alive e7))) \<and>
      count_list (new_events e (snd (uv_loop_alive e7))) BeforeExitCallbacks = 2 \<and>
      count_list (new_events e (snd (uv_loop_alive e7))) UvRun = Suc n + 1"
    if h: "idle_after E e n \<and>
    RunBeforeExit E (after_turns E e n) = Inr e4 \<and> referenced_work e4 = 1 \<and>
    idle_after E (snd (uv_loop_alive e4)) 0 \<and>
    RunBeforeExit E (turn E (snd (uv_loop_alive e4))) = Inr e7 \<and> referenced_work e7 = 0"
  proof -
  from h have i: "idle_after E e n" and p1: "RunBeforeExit E (after_turns E e n) = Inr e4"
    and r4: "referenced_work e4 = 1" and i2: "idle_after E (snd (uv_loop_alive e4)) 0"
    and p2: "RunBeforeExit E (turn E (snd (uv_loop_alive e4))) = Inr e7"
    and r7: "referenced_work e7 = 0"
    by simp_all
  define e5 where "e5 = snd (uv_loop_alive e4)"
  from Start_loop_when_idle[OF i] p1 r4 have "Start_loop E e = Start_loop E e5"
    by (simp add: e5_def)
  also from Start_loop_when_idle[OF i2] p2 r7 have "Start_loop E e5 = Some (Inr (snd (uv_loop_alive e7)))"
    by (simp add: e5_def)
  finally have res: "Start_loop E e = Some (Inr (snd (uv_loop_alive e7)))" .
  from trace_after_turns[OF i] obtain tr where
    ts: "trace (after_turns E e n) = trace e @ tr"
    and cu: "count_list tr UvRun = Suc n" and cb: "count_list tr BeforeExitCallbacks = 0"
    by auto
  from RunBeforeExit_trace[OF p1] obtain a1 ev1 where
    t4: "trace e4 = trace (after_turns E e n) @ before_exit_pass a1 ev1"
    and ev1: "list_all is_callback_event ev1" by blast
  from RunBeforeExit_trace[OF p2] obtain a2 ev2 where
    t7: "trace e7 = trace (turn E e5) @ before_exit_pass a2 ev2"
    and ev2: "list_all is_callback_event ev2" by (auto simp: e5_def)
  have "new_events e (snd (uv_loop_alive e7)) =
      tr @ before_exit_pass a1 ev1 @ [LoopAlive True] @ [UvRun, DrainVMTasksEv, LoopAlive (0 < referenced_work (turn E e5))]
      @ before_exit_pass a2 ev2 @ [LoopAlive False]"
    by (rule new_events_append)
       (simp add: trace_snd_uv_loop_alive t7 trace_turn e5_def t4 ts r4 r7)
  with cu cb count_before_exit_pass[OF ev1, of a1] count_before_exit_pass[OF ev2, of a2] res
  show ?thesis by simp
  qed
  have C: "count_list (new_events e e') BeforeExitCallbacks = 1"
    if h: "quiet_hooks E \<and> Start_loop E e = Some (Inr e')"
  proof -
    from h Start_loop_returns_idle obtain m where "idle_after E e m" by blast
    with h A[of m] show ?thesis by auto
  qed
  from A[of n] B C show ?thesis by blast
qed


theorem before_exit_loop_terminates_witness:
  "idle_after engine0 env0 0 \<and>
   (\<exists>e'. Start_loop engine0 env0 = Some (Inr e') \<and>
         count_list (new_events env0 e') BeforeExitCallbacks = 1 \<and>
         count_list (new_events env0 e') UvRun = 1) \<and>
   idle_after engine_rearm_once env0 0 \<and>
   (\<exists>e'. Start_loop engine_rearm_once env0 = Some (Inr e') \<and>
         count_list (new_events env0 e') BeforeExitCallbacks = 2 \<and>
         count_list (new_events env0 e') UvRun = 2)"
proof -
  have i: "idle_after engine0 env0 0" by (simp add: eval_defs)
  have "\<exists>e'. Start_loop engine0 env0 = Some (Inr e')"
    by (subst Start_loop.simps) (simp add: eval_defs)
  then obtain e' where r: "Start_loop engine0 env0 = Some (Inr e')" ..
  from quiet_hooks_engine0 i r before_exit_loop_terminates [of engine0 env0 0 _ _ e']
  have a: "count_list (new_events env0 e') BeforeExitCallbacks = 1 \<and>
         count_list (new_events env0 e') UvRun = 1"
    by auto
  have i2: "idle_after engine_rearm_once env0 0" by (simp add: eval_defs)
  have "\<exists>e4 e7. RunBeforeExit engine_rearm_once (after_turns engine_rearm_once env0 0) = Inr e4 \<and>
      referenced_work e4 = 1 \<and>
      idle_after engine_rearm_once (snd (uv_loop_alive e4)) 0 \<and>
      RunBeforeExit engine_rearm_once (turn engine_rearm_once (snd (uv_loop_alive e4))) = Inr e7 \<and>
      referenced_work e7 = 0"
    by (simp add: eval_defs Let_def)
  then obtain e4 e7 where
    h: "RunBeforeExit engine_rearm_once (after_turns engine_rearm_once env0 0) = Inr e4 \<and>
      referenced_work e4 = 1 \<and>
      idle_after engine_rearm_once (snd (uv_loop_alive e4)) 0 \<and>
      RunBeforeExit engine_rearm_once (turn engine_rearm_once (snd (uv_loop_alive e4))) = Inr e7 \<and>
      referenced_work e7 = 0"
    by blast
  from i2 h before_exit_loop_terminates [of engine_rearm_once env0 0 e4 e7]
  have b: "Start_loop engine_rearm_once env0 = Some (Inr (snd (uv_loop_alive e7))) \<and>
      count_list (new_events env0 (snd (uv_loop_alive e7))) BeforeExitCallbacks = 2 \<and>
      count_list (new_events env0 (snd (uv_loop_alive e7))) UvRun = 2"
    by simp
  from i r a i2 b show ?thesis by blast
qed


text \<open>
  C1.  For every nesting of callback scopes (constructions, explicit closes, also repeated
  and early ones, \<open>MarkAsFailed\<close>, flushes that surface an exception, destructions) in
  which each scope gets the resource it requires, the run does not abort and, when the
  outermost scope is destroyed, the async-id stack is what it was before it was
  constructed; the trace has exactly one push and one pop per scope constructed, and its
  pushes and pops replay on the stack, each pop finding its own id on top.
  \<open>InternalMakeCallback\<close> of \<open>node.cc\<close>, given a receiver and an engine whose calls and
  flushes leave the stack as they find it, returns with the stack it was called with,
  whether the callback returned a value or threw.
\<close>

theorem callback_scopes_balance_async_id_stack:
  "(resources_ok_use u \<longrightarrow>
     (\<exists>e'. run_use u e = Inr e' \<and>
        async_id_stack e' = async_id_stack e \<and>
        makecallback_depth e' = makecallback_depth e \<and>
        pushes (new_events e e') = scopes_use u \<and>
        pops (new_events e e') = scopes_use u \<and>
        replay (new_events e e') (async_id_stack e) = Some (async_id_stack e))) \<and>
   (stack_neutral E \<and> recv \<noteq> None \<longrightarrow>
     (\<exists>ret e'. InternalMakeCallback E recv callback argv ctx e = Inr (ret, e') \<and>
        async_id_stack e' = async_id_stack e))"
proof (intro conjI impI)
  assume "resources_ok_use u"
  from scopes_balanced(1)[OF this, of e] obtain e' tr where
    "run_use u e = Inr e'" "async_id_stack e' = async_id_stack e"
    "makecallback_depth e' = makecallback_depth e" "trace e' = trace e @ tr"
    "pushes tr = scopes_use u" "pops tr = scopes_use u"
    "replay tr (async_id_stack e) = Some (async_id_stack e)"
    unfolding use_balanced_def by blast
  moreover from this have "new_events e e' = tr" by (simp add: new_events_append)
  ultimately show "\<exists>e'. run_use u e = Inr e' \<and>
        async_id_stack e' = async_id_stack e \<and>
        makecallback_depth e' = makecallback_depth e \<and>
        pushes (new_events e e') = scopes_use u \<and>
        pops (new_events e e') = scopes_use u \<and>
        replay (new_events e e') (async_id_stack e) = Some (async_id_stack e)" by auto
next
  assume "stack_neutral E \<and> recv \<noteq> None"
  then show "\<exists>ret e'. InternalMakeCallback E recv callback argv ctx e = Inr (ret, e') \<and>
        async_id_stack e' = async_id_stack e"
    using InternalMakeCallback_balanced by blast
qed

theorem callback_scopes_balance_async_id_stack_witness:
  "resources_ok_use example_use \<and> scopes_use example_use = 3 \<and>
   async_id_stack (push_async_ids 1 0 env0) = [(1, 0)] \<and>
   (\<exists>e'. run_use example_use (push_async_ids 1 0 env0) = Inr e' \<and>
         async_id_stack e' = [(1, 0)] \<and>
         pushes (new_events (push_async_ids 1 0 env0) e') = 3 \<and>
         pops (new_events (push_async_ids 1 0 env0) e') = 3 \<and>
         replay (new_events (push_async_ids 1 0 env0) e') [(1, 0)] = Some [(1, 0)]) \<and>
   stack_neutral engine_call_throws \<and>
   (\<exists>e'. InternalMakeCallback engine_call_throws (Some ProcessObject) (Script 0) []
           \<lparr>async_id = 5, trigger_async_id = 1\<rparr> (push_async_ids 1 0 env0) = Inr (None, e') \<and>
         async_id_stack e' = [(1, 0)])"
proof -
  have ok: "resources_ok_use example_use" by (simp add: example_use_def)
  have n: "scopes_use example_use = 3" by (simp add: example_use_def)
  have s: "async_id_stack (push_async_ids 1 0 env0) = [(1, 0)]" by (simp add: eval_defs)
  have sn: "stack_neutral engine_call_throws"
    by (simp add: stack_neutral_def engine_call_throws_def engine0_def)
  have r: "\<exists>e'. InternalMakeCallback engine_call_throws (Some ProcessObject) (Script 0) []
           \<lparr>async_id = 5, trigger_async_id = 1\<rparr> (push_async_ids 1 0 env0) = Inr (None, e')"
    by (simp add: eval_defs)
  from callback_scopes_balance_async_id_stack
         [where u = example_use and e = "push_async_ids 1 0 env0" and E = engine_call_throws
            and recv = "Some ProcessObject" and callback = "Script 0" and argv = "[]"
            and ctx = "\<lparr>async_id = 5, trigger_async_id = 1\<rparr>"] n s sn r
  show ?thesis using ok by auto
qed


text \<open>
  C5.  Take a unit that has not been scheduled, call \<open>ScheduleWork()\<close> and let anything
  follow that the program and the thread pool can do.  The first thing on the unit's log
  is the increment of the counter, and the log is an initial part of one of two
  histories: increment, work called, work returned, decrement, \<open>AfterThreadPoolWork(0)\<close>;
  or, when the unit was cancelled before a worker took it, increment, decrement,
  \<open>AfterThreadPoolWork(UV_ECANCELED)\<close> with a negative status.  So \<open>AfterThreadPoolWork\<close> is
  called at most once, directly after the decrement, and with status 0 only after the
  work has returned; it has been called exactly once when the request is completed,
  and the worker and the loop can always complete it.  The counter is one above its
  start until then.
\<close>

theorem ThreadPoolWork_completion_exactly_once:
  assumes "work_req w0 = NotSubmitted" and "work_log w0 = []"
    and "0 \<le> request_waiting (work_env w0)"
    and "pool_run (CallScheduleWork # sts) w0 = Inr w"
  shows "hd (work_log w) = IncreaseCounter \<and>
         (\<exists>n. 0 < n \<and> (work_log w = take n history_success \<or>
                         work_log w = take n history_cancelled)) \<and>
         (work_req w = Completed) =
            (work_log w = history_success \<or> work_log w = history_cancelled) \<and>
         length (filter is_after (work_log w)) = (if work_req w = Completed then 1 else 0) \<and>
         request_waiting (work_env w) =
            request_waiting (work_env w0) + (if work_req w = Completed then 0 else 1) \<and>
         (\<exists>w'. pool_run [WorkerTakesRequest, WorkerFinishes, LoopRunsCompletion] w = Inr w' \<and>
               (work_log w' = history_success \<or> work_log w' = history_cancelled))"
proof -
  define c0 where "c0 = request_waiting (work_env w0)"
  from assms(1-3) have i0: "pool_inv c0 w0" by (simp add: pool_inv_def c0_def)
  from assms(4) obtain w1 where s: "pool_step CallScheduleWork w0 = Inr w1"
    and r: "pool_run sts w1 = Inr w"
    by (auto simp: and_then_Inr_iff)
  from s assms(1) have q: "work_req w1 \<noteq> NotSubmitted"
    by (auto simp: ScheduleWork_def Let_def uv_queue_work_def)
  from pool_run_submitted[OF r q] have n: "work_req w \<noteq> NotSubmitted" .
  from pool_run_inv[OF pool_step_inv[OF i0 s] r] have inv: "pool_inv c0 w" .
  from pool_completes[OF inv n] obtain w' where
    c: "pool_run [WorkerTakesRequest, WorkerFinishes, LoopRunsCompletion] w = Inr w'"
    and d: "work_req w' = Completed" by blast
  from pool_run_inv[OF inv c] d have l: "work_log w' = history_success \<or> work_log w' = history_cancelled"
    by (simp add: pool_inv_def)
  have p: "\<exists>n. 0 < n \<and> (work_log w = take n history_success \<or>
                         work_log w = take n history_cancelled)"
  proof (cases "work_req w")
    case NotSubmitted
    with n show ?thesis by simp
  next
    case Queued
    with inv show ?thesis by (intro exI[of _ 1]) (simp add: pool_inv_def)
  next
    case Running
    with inv show ?thesis by (intro exI[of _ 2]) (simp add: pool_inv_def)
  next
    case WorkDone
    with inv show ?thesis by (intro exI[of _ 3]) (simp add: pool_inv_def)
  next
    case Cancelled
    with inv show ?thesis by (intro exI[of _ 1]) (simp add: pool_inv_def)
  next
    case Completed
    with inv show ?thesis
      by (intro exI[of _ 5]) (auto simp: pool_inv_def history_success_def history_cancelled_def)
  qed
  from inv n have rest:
    "hd (work_log w) = IncreaseCounter"
    "(work_req w = Completed) =
            (work_log w = history_success \<or> work_log w = history_cancelled)"
    "length (filter is_after (work_log w)) = (if work_req w = Completed then 1 else 0)"
    "request_waiting (work_env w) = c0 + (if work_req w = Completed then 0 else 1)"
    by (cases "work_req w";
        auto simp: pool_inv_def history_success_def history_cancelled_def)+
  with p c l show ?thesis unfolding c0_def by blast
qed

theorem ThreadPoolWork_completion_exactly_once_witness:
  "(\<exists>w. pool_run (CallScheduleWork # [CallCancelWork, WorkerTakesRequest, LoopRunsCompletion])
           work0 = Inr w \<and>
        work_log w = history_cancelled \<and>
        length (filter is_after (work_log w)) = 1 \<and>
        request_waiting (work_env w) = request_waiting (work_env work0)) \<and>
   (\<exists>w. pool_run (CallScheduleWork #
             [WorkerTakesRequest, CallCancelWork, WorkerFinishes, LoopRunsCompletion,
              LoopRunsCompletion]) work0 = Inr w \<and>
        work_log w = history_success \<and>
        length (filter is_after (work_log w)) = 1) \<and>
   (\<exists>w. pool_run (CallScheduleWork # [WorkerTakesRequest]) work0 = Inr w \<and>
        work_log w = take 2 history_success \<and>
        length (filter is_after (work_log w)) = 0 \<and>
        request_waiting (work_env w) = request_waiting (work_env work0) + 1)"
proof -
  have f: "work_req work0 = NotSubmitted" "work_log work0 = []"
    "0 \<le> request_waiting (work_env work0)"
    by (simp_all add: eval_defs)
  have "\<exists>w. pool_run (CallScheduleWork # [CallCancelWork, WorkerTakesRequest, LoopRunsCompletion])
           work0 = Inr w \<and> work_log w = history_cancelled"
    by (simp add: eval_defs)
  then obtain wa where
    a: "pool_run (CallScheduleWork # [CallCancelWork, WorkerTakesRequest, LoopRunsCompletion])
           work0 = Inr wa" and la: "work_log wa = history_cancelled"
    by blast
  have "\<exists>w. pool_run (CallScheduleWork #
             [WorkerTakesRequest, CallCancelWork, WorkerFinishes, LoopRunsCompletion,
              LoopRunsCompletion]) work0 = Inr w \<and> work_log w = history_success"
    by (simp add: eval_defs)
  then obtain wb where
    b: "pool_run (CallScheduleWork #
             [WorkerTakesRequest, CallCancelWork, WorkerFinishes, LoopRunsCompletion,
              LoopRunsCompletion]) work0 = Inr wb" and lb: "work_log wb = history_success"
    by blast
  have "\<exists>w. pool_run (CallScheduleWork # [WorkerTakesRequest]) work0 = Inr w \<and>
        work_log w = take 2 history_success \<and> work_req w = Running"
    by (simp add: eval_defs)
  then obtain wc where
    c: "pool_run (CallScheduleWork # [WorkerTakesRequest]) work0 = Inr wc"
    and lc: "work_log wc = take 2 history_success" and rc: "work_req wc = Running"
    by blast
  from ThreadPoolWork_completion_exactly_once [OF f a] la
  have ra: "length (filter is_after (work_log wa)) = 1 \<and>
        request_waiting (work_env wa) = request_waiting (work_env work0)"
    by auto
  from ThreadPoolWork_completion_exactly_once [OF f b] lb
  have rb: "length (filter is_after (work_log wb)) = 1"
    by auto
  from ThreadPoolWork_completion_exactly_once [OF f c] rc
  have rcc: "length (filter is_after (work_log wc)) = 0 \<and>
        request_waiting (work_env wc) = request_waiting (work_env work0) + 1"
    by auto
  from a la ra b lb rb c lc rcc show ?thesis by blast
qed


end
